theory Spec2Isabelle
  imports Main "HOL-Library.AList"
begin

section \<open>Python values used by the CycloneDX writer\<close>

text \<open>
  Python strings are modelled as \<open>string\<close>. Relationship labels, identifiers and paths
  are taken to be ASCII text; \<open>upper\<close> is \<open>str.upper\<close> on such text: the letters
  \<open>a\<close> to \<open>z\<close> are mapped to \<open>A\<close> to \<open>Z\<close>, every other character is kept.
\<close>

definition upper_char :: "char \<Rightarrow> char" where
  "upper_char c =
     (case map_of (zip ''abcdefghijklmnopqrstuvwxyz'' ''ABCDEFGHIJKLMNOPQRSTUVWXYZ'') c of
        Some d \<Rightarrow> d
      | None \<Rightarrow> c)"

definition upper :: "string \<Rightarrow> string" where
  "upper s = map upper_char s"

text \<open>
  Truth value of an \<open>Optional[str]\<close> in a condition: \<open>None\<close> and the empty string are
  false, every other string is true.
\<close>

fun truthy :: "string option \<Rightarrow> bool" where
  "truthy None = False"
| "truthy (Some s) = (s \<noteq> [])"

text \<open>\<open>s.split(sep)\<close> for a one-character separator, and \<open>sep.join(xs)\<close>.\<close>

fun split_sep :: "char \<Rightarrow> string \<Rightarrow> string list" where
  "split_sep sep [] = [[]]"
| "split_sep sep (c # cs) =
     (if c = sep then [] # split_sep sep cs
      else (case split_sep sep cs of
              [] \<Rightarrow> [[c]]
            | w # ws \<Rightarrow> (c # w) # ws))"

fun join :: "string \<Rightarrow> string list \<Rightarrow> string" where
  "join sep [] = []"
| "join sep [x] = x"
| "join sep (x # y # ys) = x @ sep @ join sep (y # ys)"

text \<open>
  \<open>pathlib.PurePath(p).parts\<close> in the POSIX flavour. \<open>splitroot\<close> is
  \<open>posixpath.splitroot\<close> without the (always empty) drive: one leading slash, or three
  and more, give the root \<open>/\<close>; exactly two give the root \<open>//\<close>. The rest is split at
  \<open>/\<close>, and empty segments and \<open>.\<close> segments are dropped. A non-empty root is the first
  part.
\<close>

definition splitroot :: "string \<Rightarrow> string \<times> string" where
  "splitroot p =
     (if take 1 p \<noteq> ''/'' then ([], p)
      else if take 1 (drop 1 p) \<noteq> ''/'' \<or> take 1 (drop 2 p) = ''/'' then (''/'', drop 1 p)
      else (take 2 p, drop 2 p))"

definition PurePath_parts :: "string \<Rightarrow> string list" where
  "PurePath_parts p =
     (let (root, rel) = splitroot p;
          tail = filter (\<lambda>x. x \<noteq> [] \<and> x \<noteq> ''.'') (split_sep (CHR ''/'') rel)
      in if root \<noteq> [] then root # tail else tail)"

section \<open>The input: systems, software entries and the relationship graph\<close>

text \<open>
  Modelled from the spec: the classes \<open>System\<close>, \<open>Software\<close> and \<open>SBOM\<close> of
  \<open>surfactant.sbomtypes\<close>, which the writer imports. The fields are the
  attributes the writer reads. Optional text attributes are \<open>string option\<close>, the vendor,
  file name and container path attributes are lists, and a metadata record maps a
  category name to a mapping from field names to values (association lists, looked up
  with \<open>map_of\<close>). The identifier of a system or software entry is a string that is not
  empty.
\<close>

type_synonym metadata_entry = "(string \<times> (string \<times> string) list) list"

record System =
  sys_UUID :: string
  sys_officialName :: "string option"
  sys_name :: "string option"
  sys_description :: "string option"
  sys_vendor :: "string list"

record Software =
  UUID :: string
  name :: "string option"
  version :: "string option"
  vendor :: "string list"
  description :: "string option"
  sha1 :: "string option"
  sha256 :: "string option"
  md5 :: "string option"
  fileName :: "string list"
  containerPath :: "string list"
  metadata :: "metadata_entry list"

text \<open>
  The graph is a directed multigraph; the writer reads it only through
  \<open>graph.edges(keys=True)\<close>, the sequence of triples (parent, child, relationship label),
  and through \<open>get_children\<close>.
\<close>

record SBOM =
  systems :: "System list"
  software :: "Software list"
  graph :: "(string \<times> string \<times> string) list"

text \<open>
  Modelled from the spec: \<open>SBOM.get_children(xuuid, rel_type)\<close>, the lookup of the
  children of a node under a relation, where the node is the parent of the edge. The
  relation label is compared as in the edge walk of the writer, without regard to case.
\<close>

definition get_children :: "SBOM \<Rightarrow> string \<Rightarrow> string \<Rightarrow> string list" where
  "get_children sbom xuuid rel_type =
     map (\<lambda>(p, c, k). c)
       (filter (\<lambda>(p, c, k). p = xuuid \<and> upper k = upper rel_type) (graph sbom))"

section \<open>The output: components and dependencies\<close>

text \<open>
  A \<open>Component\<close> records the arguments the writer passes to the constructor of the
  CycloneDX library; an argument that is not passed is \<open>None\<close>. A \<open>Dependency\<close> has
  the two attributes of the class of the library: its own reference and the references
  of the children added to \<open>dependencies\<close>. A \<open>Bom\<close> has the components and the
  dependencies added to it. The lists keep the order of the calls; the library holds
  components and dependencies as sets.
\<close>

datatype ComponentType = CONTAINER | FILE

datatype HashAlgorithm = SHA_1 | SHA_256 | MD5

record Component =
  bom_ref :: string
  comp_name :: "string option"
  comp_version :: "string option"
  supplier :: "string option"
  comp_description :: "string option"
  hashes :: "(HashAlgorithm \<times> string) list option"
  copyright :: "string option"
  comp_type :: ComponentType

record Dependency =
  ref :: string
  dependencies :: "string list"

record Bom =
  components :: "Component list"
  bom_dependencies :: "Dependency list"

text \<open>
  The exceptions that end a call of the writer: the \<open>AttributeError\<close> of Python for a
  method that an object does not have, and the exception with which the serializer of
  the library refuses a document.
\<close>

datatype error = AttributeError | UnknownComponentDependencyException

section \<open>The writer\<close>

subsection \<open>Systems\<close>

definition convert_system_to_cyclonedx_component :: "System \<Rightarrow> string \<times> Component" where
  "convert_system_to_cyclonedx_component system =
     (let name0 = sys_officialName system;
          name1 = (if \<not> truthy name0 \<and> truthy (sys_name system) then sys_name system else name0);
          supplier0 = (case sys_vendor system of [] \<Rightarrow> None | v # _ \<Rightarrow> Some v)
      in (sys_UUID system,
          \<lparr>bom_ref = sys_UUID system,
           comp_name = name1,
           comp_version = None,
           supplier = supplier0,
           comp_description = sys_description system,
           hashes = None,
           copyright = None,
           comp_type = CONTAINER\<rparr>))"

subsection \<open>Software entries\<close>

text \<open>
  The hash list both converters build: one entry for each of SHA-1, SHA-256 and MD5 whose
  value is neither \<open>None\<close> nor empty, in this order, and \<open>None\<close> in place of an
  empty list.
\<close>

fun hash_entry :: "HashAlgorithm \<Rightarrow> string option \<Rightarrow> (HashAlgorithm \<times> string) list" where
  "hash_entry a None = []"
| "hash_entry a (Some h) = (if h = [] then [] else [(a, h)])"

definition build_hashes :: "Software \<Rightarrow> (HashAlgorithm \<times> string) list option" where
  "build_hashes sw =
     (let hs = hash_entry SHA_1 (sha1 sw) @ hash_entry SHA_256 (sha256 sw)
                 @ hash_entry MD5 (md5 sw)
      in if hs = [] then None else Some hs)"

definition pick_supplier :: "Software \<Rightarrow> string option" where
  "pick_supplier sw = (case vendor sw of [] \<Rightarrow> None | v # _ \<Rightarrow> Some v)"

definition convert_software_to_cyclonedx_container_components ::
  "Software \<Rightarrow> string \<times> Component list" where
  "convert_software_to_cyclonedx_container_components sw =
     (UUID sw,
      map (\<lambda>fname.
             \<lparr>bom_ref = UUID sw,
              comp_name = (if \<not> truthy (name sw) then Some fname else name sw),
              comp_version = version sw,
              supplier = pick_supplier sw,
              comp_description = description sw,
              hashes = build_hashes sw,
              copyright = None,
              comp_type = CONTAINER\<rparr>)
          (fileName sw))"

fun fileinfo_lookup :: "metadata_entry list \<Rightarrow> string \<Rightarrow> string option" where
  "fileinfo_lookup [] field = None"
| "fileinfo_lookup (entry # rest) field =
     (case map_of entry ''FileInfo'' of
        None \<Rightarrow> fileinfo_lookup rest field
      | Some fi \<Rightarrow>
          (case map_of fi field of
             None \<Rightarrow> fileinfo_lookup rest field
           | Some v \<Rightarrow> Some v))"

definition get_fileinfo_metadata :: "Software \<Rightarrow> string \<Rightarrow> string option" where
  "get_fileinfo_metadata sw field = fileinfo_lookup (metadata sw) field"

text \<open>
  \<open>create_cyclonedx_file\<close> assigns to \<open>software.description\<close> and
  \<open>software.version\<close>, so it returns the software entry as it leaves it, next to the
  component.
\<close>

definition create_cyclonedx_file :: "string \<Rightarrow> Software \<Rightarrow> Component \<times> Software" where
  "create_cyclonedx_file file_path sw =
     (let cr_text = get_fileinfo_metadata sw ''LegalCopyright'';
          copyright_text = (if truthy cr_text then cr_text else None);
          sw1 = (if description sw = Some [] then sw\<lparr>description := None\<rparr> else sw);
          sw2 = (if version sw1 = Some [] then sw1\<lparr>version := None\<rparr> else sw1)
      in (\<lparr>bom_ref = UUID sw2,
           comp_name = Some file_path,
           comp_version = version sw2,
           supplier = pick_supplier sw,
           comp_description = description sw2,
           hashes = build_hashes sw,
           copyright = copyright_text,
           comp_type = FILE\<rparr>,
          sw2))"

text \<open>
  The two loops of \<open>convert_software_to_cyclonedx_file_components\<close>. Each returns the
  tuples (parent, UUID, component) it appends, and the software entry after the calls
  of \<open>create_cyclonedx_file\<close>.
\<close>

fun container_path_files ::
  "string list \<Rightarrow> Software \<Rightarrow> (string option \<times> string \<times> Component) list \<times> Software" where
  "container_path_files [] sw = ([], sw)"
| "container_path_files (cpathstr # rest) sw =
     (let parts = PurePath_parts cpathstr
      in if length parts > 1 then
           (let parent_uuid = hd parts;
                file_path = join ''/'' (tl parts);
                (file, sw1) = create_cyclonedx_file file_path sw;
                (files, sw2) = container_path_files rest sw1
            in ((Some parent_uuid, UUID sw1, file) # files, sw2))
         else container_path_files rest sw)"

fun file_name_files ::
  "string list \<Rightarrow> Software \<Rightarrow> (string option \<times> string \<times> Component) list \<times> Software" where
  "file_name_files [] sw = ([], sw)"
| "file_name_files (fname # rest) sw =
     (let (file, sw1) = create_cyclonedx_file fname sw;
          (files, sw2) = file_name_files rest sw1
      in ((None, UUID sw1, file) # files, sw2))"

definition convert_software_to_cyclonedx_file_components ::
  "Software \<Rightarrow> (string option \<times> string \<times> Component) list \<times> Software" where
  "convert_software_to_cyclonedx_file_components sw =
     (let (files, sw1) = container_path_files (containerPath sw) sw
      in if containerPath sw1 = [] then
           (let (files2, sw2) = file_name_files (fileName sw1) sw1
            in (files @ files2, sw2))
         else (files, sw1))"

subsection \<open>The loop over the software entries\<close>

text \<open>
  \<open>record_parents\<close> is the inner loop over the tuples of a file-type software entry:
  the component is added, and a parent that is neither \<open>None\<close> nor empty is stored in
  \<open>container_path_relationships\<close> under the component's reference.
\<close>

fun record_parents ::
  "(string option \<times> string \<times> Component) list \<Rightarrow> (string \<rightharpoonup> string) \<Rightarrow> (string \<rightharpoonup> string)" where
  "record_parents [] cpr = cpr"
| "record_parents ((parent_uuid, u, file) # rest) cpr =
     record_parents rest
       (case parent_uuid of
          None \<Rightarrow> cpr
        | Some p \<Rightarrow> if p = [] then cpr else cpr(bom_ref file \<mapsto> p))"

text \<open>
  The body of the loop for one software entry: the components added to the document, the
  lookup table and the software entry afterwards.
\<close>

definition software_step ::
  "SBOM \<Rightarrow> Software \<Rightarrow> (string \<rightharpoonup> string) \<Rightarrow> Component list \<times> (string \<rightharpoonup> string) \<times> Software" where
  "software_step sbom sw cpr =
     (if get_children sbom (UUID sw) ''Contains'' \<noteq> [] then
        (snd (convert_software_to_cyclonedx_container_components sw), cpr, sw)
      else
        (let (files, sw1) = convert_software_to_cyclonedx_file_components sw
         in (map (\<lambda>(parent_uuid, u, file). file) files, record_parents files cpr, sw1)))"

fun software_loop ::
  "SBOM \<Rightarrow> Software list \<Rightarrow> (string \<rightharpoonup> string) \<Rightarrow>
     Component list \<times> (string \<rightharpoonup> string) \<times> Software list" where
  "software_loop sbom [] cpr = ([], cpr, [])"
| "software_loop sbom (sw # rest) cpr =
     (let (comps, cpr1, sw1) = software_step sbom sw cpr;
          (comps2, cpr2, rest2) = software_loop sbom rest cpr1
      in (comps @ comps2, cpr2, sw1 # rest2))"

subsection \<open>The walk over the edges\<close>

text \<open>
  The writer calls \<open>parent_dep.add_scope_dependency(Dependency(...), scope=...)\<close> for
  every edge whose label is not \<open>Contains\<close>. The class \<open>Dependency\<close> of the CycloneDX
  library has no method of this name, so the call raises \<open>AttributeError\<close>, whatever its
  arguments are.
\<close>

definition add_scope_dependency :: "Dependency \<Rightarrow> string \<Rightarrow> string \<Rightarrow> error + Dependency" where
  "add_scope_dependency parent_dep child_uuid scope = Inl AttributeError"

text \<open>
  \<open>cdx_rels\<close> is a dictionary from parent identifiers to \<open>Dependency\<close> objects; it is
  an association list in insertion order. \<open>AList.update\<close> replaces the value of a key
  that is present where it stands and appends a new key at the end. \<open>edge_step\<close> is
  the body of the loop for one edge: it returns \<open>cdx_rels\<close> afterwards, or the exception
  raised.
\<close>

definition edge_step ::
  "(string \<rightharpoonup> string) \<Rightarrow> (string \<times> Dependency) list \<Rightarrow> string \<times> string \<times> string \<Rightarrow>
     error + (string \<times> Dependency) list" where
  "edge_step cpr cdx_rels e =
     (case e of (parent_uuid, child_uuid, rel_type0) \<Rightarrow>
        (let rel_type = upper rel_type0
         in if rel_type = ''CONTAINS'' \<and> child_uuid \<in> dom cpr
               \<and> Some parent_uuid \<noteq> cpr child_uuid
            then Inr cdx_rels
            else
              (let parent_dep =
                     (case map_of cdx_rels parent_uuid of
                        None \<Rightarrow> \<lparr>ref = parent_uuid, dependencies = []\<rparr>
                      | Some d \<Rightarrow> d)
               in if rel_type = ''CONTAINS'' then
                    Inr (AList.update parent_uuid
                           (parent_dep\<lparr>dependencies := dependencies parent_dep @ [child_uuid]\<rparr>)
                           cdx_rels)
                  else if rel_type \<in> {''USES'', ''DEPENDS_ON'', ''REQUIRES''} then
                    (case add_scope_dependency parent_dep child_uuid ''runtime'' of
                       Inl err \<Rightarrow> Inl err
                     | Inr parent_dep1 \<Rightarrow> Inr (AList.update parent_uuid parent_dep1 cdx_rels))
                  else
                    (case add_scope_dependency parent_dep child_uuid ''unknown'' of
                       Inl err \<Rightarrow> Inl err
                     | Inr parent_dep1 \<Rightarrow> Inr (AList.update parent_uuid parent_dep1 cdx_rels)))))"

fun edge_loop ::
  "(string \<rightharpoonup> string) \<Rightarrow> (string \<times> string \<times> string) list \<Rightarrow> (string \<times> Dependency) list \<Rightarrow>
     error + (string \<times> Dependency) list" where
  "edge_loop cpr [] cdx_rels = Inr cdx_rels"
| "edge_loop cpr (e # es) cdx_rels =
     (case edge_step cpr cdx_rels e of
        Inl err \<Rightarrow> Inl err
      | Inr cdx_rels1 \<Rightarrow> edge_loop cpr es cdx_rels1)"

subsection \<open>\<open>write_sbom\<close>\<close>

text \<open>
  \<open>container_path_relationships\<close> is the lookup table after the loop over the software
  entries. \<open>build_bom\<close> is \<open>write_sbom\<close> up to the point where the serializer is
  made: it returns the \<open>Bom\<close> that is handed to the serializer, or the exception raised
  before, together with the SBOM as the call leaves it. The tool metadata of the
  \<open>Bom\<close> is the same for every SBOM and is left out.
\<close>

definition container_path_relationships :: "SBOM \<Rightarrow> (string \<rightharpoonup> string)" where
  "container_path_relationships sbom =
     fst (snd (software_loop sbom (software sbom) Map.empty))"

definition build_bom :: "SBOM \<Rightarrow> (error + Bom) \<times> SBOM" where
  "build_bom sbom =
     (let system_comps = map (\<lambda>system. snd (convert_system_to_cyclonedx_component system))
                           (systems sbom);
          (software_comps, cpr, software1) = software_loop sbom (software sbom) Map.empty
      in (case edge_loop cpr (graph sbom) [] of
            Inl err \<Rightarrow> Inl err
          | Inr cdx_rels \<Rightarrow>
              Inr \<lparr>components = system_comps @ software_comps,
                   bom_dependencies = map snd cdx_rels\<rparr>,
          sbom\<lparr>software := software1\<rparr>))"

text \<open>
  The serializer, \<open>make_outputter(...).output_as_string()\<close>, belongs to the CycloneDX
  library and is a parameter of \<open>write_sbom\<close>: it gives the text that
  \<open>outfile.write\<close> receives, or the exception it raises. The serializer of the library
  refuses a \<open>Bom\<close> in which a dependency refers to something that is no component, and
  it writes a generated reference for a component whose reference another component
  has already; so the references in the text written are not always those of the
  \<open>Bom\<close> handed to it. \<open>write_sbom\<close> returns what is written, or the exception, and
  the SBOM as the call leaves it.
\<close>

definition write_sbom :: "(Bom \<Rightarrow> error + string) \<Rightarrow> SBOM \<Rightarrow> (error + string) \<times> SBOM" where
  "write_sbom output_as_string sbom =
     (case build_bom sbom of
        (Inl err, sbom1) \<Rightarrow> (Inl err, sbom1)
      | (Inr bom, sbom1) \<Rightarrow> (output_as_string bom, sbom1))"

section \<open>Notions used to state the properties\<close>

text \<open>
  What \<open>create_cyclonedx_file\<close> does to a version or description (the empty string
  becomes \<open>None\<close>) and to the software entry it is given, and the container paths of a
  software entry that have more than one part.
\<close>

definition drop_empty :: "string option \<Rightarrow> string option" where
  "drop_empty v = (if v = Some [] then None else v)"

definition normalized :: "Software \<Rightarrow> Software" where
  "normalized sw = sw\<lparr>version := drop_empty (version sw), description := drop_empty (description sw)\<rparr>"

definition multi_part_paths :: "Software \<Rightarrow> string list" where
  "multi_part_paths sw = filter (\<lambda>p. length (PurePath_parts p) > 1) (containerPath sw)"

text \<open>
  The edge walk, edge by edge: whether an edge is passed over, and the children a parent
  collects from the edges labelled \<open>Contains\<close> of a list of edges, in the order of the
  edges.
\<close>

definition edge_skipped :: "(string \<rightharpoonup> string) \<Rightarrow> string \<times> string \<times> string \<Rightarrow> bool" where
  "edge_skipped cpr e =
     (case e of (p, c, l) \<Rightarrow>
        upper l = ''CONTAINS'' \<and> (case cpr c of None \<Rightarrow> False | Some q \<Rightarrow> q \<noteq> p))"

definition structural_children ::
  "(string \<rightharpoonup> string) \<Rightarrow> (string \<times> string \<times> string) list \<Rightarrow> string \<Rightarrow> string list" where
  "structural_children cpr es k =
     map (\<lambda>(p, c, l). c)
       (filter (\<lambda>(p, c, l). p = k \<and> upper l = ''CONTAINS'' \<and> \<not> edge_skipped cpr (p, c, l)) es)"

section \<open>Example inputs\<close>

text \<open>
  A small SBOM on which the properties below are evaluated. Its systems are \<open>S1\<close>,
  \<open>parentA\<close>, \<open>A\<close> and \<open>B\<close>. \<open>file_entry\<close> is a file inside \<open>parentA\<close>, with an
  empty version and description. \<open>container_entry\<close> is a named archive with three file
  name entries, two of them equal, and an empty version and description; it has an edge
  labelled \<open>contains\<close> to \<open>file_entry\<close>. \<open>bare_entry\<close> has one container path, with a
  single part. \<open>two_parent_entry\<close> has container paths under two parents, and
  \<open>nested_entry\<close> is an archive inside two parents that itself contains
  \<open>two_parent_entry\<close>. Every edge of the graph is labelled \<open>Contains\<close>, in some case.
  \<open>scoped_sbom\<close> has the systems \<open>A\<close> and \<open>B\<close> and one edge, labelled
  \<open>Requires\<close>. \<open>two_path_sbom\<close> has the same systems, \<open>two_parent_entry\<close> as its
  only software entry and one edge, labelled \<open>Contains\<close>. \<open>empty_output\<close> is a
  serializer that writes the empty text for every \<open>Bom\<close>; it stands for the serializer
  in statements on the examples that do not depend on what is written.
\<close>

definition file_entry :: Software where
  "file_entry =
     \<lparr>UUID = ''F1'', name = None, version = Some [], vendor = [],
      description = Some [], sha1 = None, sha256 = Some ''abc123'', md5 = None,
      fileName = [''libfoo.so''], containerPath = [''parentA/sub/file.txt''],
      metadata = []\<rparr>"

definition container_entry :: Software where
  "container_entry =
     \<lparr>UUID = ''P1'', name = Some ''pkg'', version = Some [], vendor = [''Acme''],
      description = Some [], sha1 = Some ''da39'', sha256 = None, md5 = Some ''d41d'',
      fileName = [''pkg.tar'', ''pkg.tar'', ''pkg-1.tar''], containerPath = [],
      metadata = []\<rparr>"

definition bare_entry :: Software where
  "bare_entry =
     \<lparr>UUID = ''F2'', name = None, version = None, vendor = [],
      description = None, sha1 = None, sha256 = None, md5 = None,
      fileName = [''file.txt''], containerPath = [''file.txt''],
      metadata = []\<rparr>"

definition two_parent_entry :: Software where
  "two_parent_entry =
     \<lparr>UUID = ''F3'', name = None, version = Some ''1.0'', vendor = [],
      description = None, sha1 = None, sha256 = None, md5 = None,
      fileName = [''x.txt''], containerPath = [''A/x.txt'', ''B/y.txt''],
      metadata = []\<rparr>"

definition nested_entry :: Software where
  "nested_entry =
     \<lparr>UUID = ''P2'', name = None, version = None, vendor = [],
      description = None, sha1 = None, sha256 = None, md5 = None,
      fileName = [''in.zip''], containerPath = [''A/in.zip'', ''B/in.zip''],
      metadata = []\<rparr>"

definition example_system :: System where
  "example_system =
     \<lparr>sys_UUID = ''S1'', sys_officialName = Some ''Widget OS'', sys_name = None,
      sys_description = None, sys_vendor = [''Acme'']\<rparr>"

definition container_system :: "string \<Rightarrow> System" where
  "container_system u =
     \<lparr>sys_UUID = u, sys_officialName = None, sys_name = Some u,
      sys_description = None, sys_vendor = []\<rparr>"

definition example_sbom :: SBOM where
  "example_sbom =
     \<lparr>systems = [example_system, container_system ''parentA'', container_system ''A'',
                 container_system ''B''],
      software = [file_entry, container_entry, bare_entry, two_parent_entry, nested_entry],
      graph = [(''parentA'', ''F1'', ''Contains''),
               (''P1'', ''F1'', ''contains''),
               (''A'', ''F3'', ''Contains''),
               (''B'', ''F3'', ''CONTAINS''),
               (''P2'', ''F3'', ''Contains''),
               (''A'', ''P2'', ''Contains''),
               (''S1'', ''P1'', ''Contains'')]\<rparr>"

definition empty_output :: "Bom \<Rightarrow> error + string" where
  "empty_output bom = Inr []"

definition scoped_sbom :: SBOM where
  "scoped_sbom =
     \<lparr>systems = [container_system ''A'', container_system ''B''],
      software = [],
      graph = [(''A'', ''B'', ''Requires'')]\<rparr>"


section \<open>Properties of the converters\<close>

lemma drop_empty_idem [simp]: "drop_empty (drop_empty v) = drop_empty v"
  by (simp add: drop_empty_def)

lemma normalized_idem [simp]: "normalized (normalized sw) = normalized sw"
  by (simp add: normalized_def)

lemma normalized_fields [simp]:
  "UUID (normalized sw) = UUID sw" "name (normalized sw) = name sw"
  "vendor (normalized sw) = vendor sw" "sha1 (normalized sw) = sha1 sw"
  "sha256 (normalized sw) = sha256 sw" "md5 (normalized sw) = md5 sw"
  "fileName (normalized sw) = fileName sw" "containerPath (normalized sw) = containerPath sw"
  "metadata (normalized sw) = metadata sw"
  "version (normalized sw) = drop_empty (version sw)"
  "description (normalized sw) = drop_empty (description sw)"
  by (simp_all add: normalized_def)

lemma split_sep_not_Nil [simp]: "split_sep sep s \<noteq> []"
  by (induction s) (auto split: list.splits)

lemma PurePath_parts_nonempty: "x \<in> set (PurePath_parts p) \<Longrightarrow> x \<noteq> []"
  by (cases p) (auto simp: PurePath_parts_def splitroot_def Let_def split: if_splits)

lemma snd_create [simp]: "snd (create_cyclonedx_file fp sw) = normalized sw"
  by (cases sw) (simp add: create_cyclonedx_file_def normalized_def drop_empty_def Let_def)

lemma fst_create:
  "fst (create_cyclonedx_file fp sw) =
     \<lparr>bom_ref = UUID sw, comp_name = Some fp, comp_version = drop_empty (version sw),
      supplier = pick_supplier sw, comp_description = drop_empty (description sw),
      hashes = build_hashes sw,
      copyright = (if truthy (get_fileinfo_metadata sw ''LegalCopyright'')
                   then get_fileinfo_metadata sw ''LegalCopyright'' else None),
      comp_type = FILE\<rparr>"
  by (cases sw) (simp add: create_cyclonedx_file_def drop_empty_def Let_def)

lemma fst_create_normalized [simp]:
  "fst (create_cyclonedx_file fp (normalized sw)) = fst (create_cyclonedx_file fp sw)"
  by (simp add: fst_create pick_supplier_def build_hashes_def get_fileinfo_metadata_def)

lemma container_path_files_eq:
  "container_path_files ps sw =
     (map (\<lambda>p. (Some (hd (PurePath_parts p)), UUID sw,
                 fst (create_cyclonedx_file (join ''/'' (tl (PurePath_parts p))) sw)))
        (filter (\<lambda>p. length (PurePath_parts p) > 1) ps),
      if filter (\<lambda>p. length (PurePath_parts p) > 1) ps = [] then sw else normalized sw)"
proof (induction ps arbitrary: sw)
  case Nil
  show ?case by simp
next
  case (Cons p ps)
  show ?case
  proof (cases "length (PurePath_parts p) > 1")
    case True
    then show ?thesis
      using Cons.IH [of "normalized sw"]
      by (simp add: Let_def split_beta)
  next
    case False
    then show ?thesis using Cons.IH [of sw] by (simp add: Let_def)
  qed
qed

lemma file_name_files_eq:
  "file_name_files fs sw =
     (map (\<lambda>f. (None, UUID sw, fst (create_cyclonedx_file f sw))) fs,
      if fs = [] then sw else normalized sw)"
proof (induction fs arbitrary: sw)
  case Nil
  show ?case by simp
next
  case (Cons f fs)
  show ?case
    using Cons.IH [of "normalized sw"]
    by (simp add: Let_def split_beta)
qed

lemma convert_file_components_eq:
  "convert_software_to_cyclonedx_file_components sw =
     (if containerPath sw = [] then
        (map (\<lambda>f. (None, UUID sw, fst (create_cyclonedx_file f sw))) (fileName sw),
         if fileName sw = [] then sw else normalized sw)
      else
        (map (\<lambda>p. (Some (hd (PurePath_parts p)), UUID sw,
                    fst (create_cyclonedx_file (join ''/'' (tl (PurePath_parts p))) sw)))
           (multi_part_paths sw),
         if multi_part_paths sw = [] then sw else normalized sw))"
  by (simp add: convert_software_to_cyclonedx_file_components_def container_path_files_eq
      file_name_files_eq multi_part_paths_def)

section \<open>Properties of the loop over the software entries\<close>

lemma multi_part_paths_parent:
  "p \<in> set (multi_part_paths sw) \<Longrightarrow> hd (PurePath_parts p) \<noteq> []"
proof -
  assume "p \<in> set (multi_part_paths sw)"
  then have "PurePath_parts p \<noteq> []" by (auto simp: multi_part_paths_def)
  then have "hd (PurePath_parts p) \<in> set (PurePath_parts p)" by simp
  then show ?thesis by (rule PurePath_parts_nonempty)
qed

lemma record_parents_None:
  "record_parents (map (\<lambda>f. (None, u, g f)) fs) cpr = cpr"
  by (induction fs arbitrary: cpr) simp_all

lemma record_parents_Some:
  "\<forall>p\<in>set ps. h p \<noteq> [] \<Longrightarrow> \<forall>p\<in>set ps. bom_ref (g p) = k \<Longrightarrow>
   record_parents (map (\<lambda>p. (Some (h p), u, g p)) ps) cpr =
     (if ps = [] then cpr else cpr(k \<mapsto> h (last ps)))"
  by (induction ps arbitrary: cpr) auto

lemma bom_ref_create [simp]: "bom_ref (fst (create_cyclonedx_file fp sw)) = UUID sw"
  by (simp add: fst_create)

lemma software_step_eq:
  "software_step sbom sw cpr =
     (if get_children sbom (UUID sw) ''Contains'' \<noteq> [] then
        (snd (convert_software_to_cyclonedx_container_components sw), cpr, sw)
      else if containerPath sw = [] then
        (map (\<lambda>f. fst (create_cyclonedx_file f sw)) (fileName sw), cpr,
         if fileName sw = [] then sw else normalized sw)
      else
        (map (\<lambda>p. fst (create_cyclonedx_file (join ''/'' (tl (PurePath_parts p))) sw))
           (multi_part_paths sw),
         if multi_part_paths sw = [] then cpr
         else cpr(UUID sw \<mapsto> hd (PurePath_parts (last (multi_part_paths sw)))),
         if multi_part_paths sw = [] then sw else normalized sw))"
proof -
  have r: "record_parents
        (map (\<lambda>p. (Some (hd (PurePath_parts p)), UUID sw,
                    fst (create_cyclonedx_file (join ''/'' (tl (PurePath_parts p))) sw)))
           (multi_part_paths sw)) cpr =
      (if multi_part_paths sw = [] then cpr
       else cpr(UUID sw \<mapsto> hd (PurePath_parts (last (multi_part_paths sw)))))"
    by (rule record_parents_Some) (simp_all add: multi_part_paths_parent)
  show ?thesis
    by (simp add: software_step_def convert_file_components_eq record_parents_None r
        comp_def)
qed

lemma multi_part_paths_Nil [simp]: "containerPath sw = [] \<Longrightarrow> multi_part_paths sw = []"
  by (simp add: multi_part_paths_def)

lemma software_step_components:
  "fst (software_step sbom sw cpr) = fst (software_step sbom sw Map.empty)"
  by (simp add: software_step_eq)

lemma software_step_software:
  "snd (snd (software_step sbom sw cpr)) = snd (snd (software_step sbom sw Map.empty))"
  by (simp add: software_step_eq)

lemma software_step_table:
  "fst (snd (software_step sbom sw cpr)) u =
     (if u = UUID sw \<and> get_children sbom (UUID sw) ''Contains'' = []
         \<and> multi_part_paths sw \<noteq> []
      then Some (hd (PurePath_parts (last (multi_part_paths sw))))
      else cpr u)"
  by (auto simp add: software_step_eq)

lemma software_loop_components:
  "fst (software_loop sbom sws cpr) =
     concat (map (\<lambda>sw. fst (software_step sbom sw Map.empty)) sws)"
proof (induction sws arbitrary: cpr)
  case Nil
  show ?case by simp
next
  case (Cons sw sws)
  show ?case
    using Cons.IH [of "fst (snd (software_step sbom sw cpr))"]
      software_step_components [of sbom sw cpr]
    by (simp add: split_beta)
qed

lemma software_loop_software:
  "snd (snd (software_loop sbom sws cpr)) =
     map (\<lambda>sw. snd (snd (software_step sbom sw Map.empty))) sws"
proof (induction sws arbitrary: cpr)
  case Nil
  show ?case by simp
next
  case (Cons sw sws)
  show ?case
    using Cons.IH [of "fst (snd (software_step sbom sw cpr))"]
      software_step_software [of sbom sw cpr]
    by (simp add: split_beta)
qed

lemma software_loop_table_other:
  "u \<notin> UUID ` set sws \<Longrightarrow> fst (snd (software_loop sbom sws cpr)) u = cpr u"
proof (induction sws arbitrary: cpr)
  case Nil
  show ?case by simp
next
  case (Cons sw sws)
  then show ?case
    using Cons.IH [of "fst (snd (software_step sbom sw cpr))"]
    by (simp add: split_beta software_step_table)
qed

lemma software_loop_table:
  "distinct (map UUID sws) \<Longrightarrow> sw \<in> set sws \<Longrightarrow>
   fst (snd (software_loop sbom sws cpr)) (UUID sw) =
     (if get_children sbom (UUID sw) ''Contains'' = [] \<and> multi_part_paths sw \<noteq> []
      then Some (hd (PurePath_parts (last (multi_part_paths sw))))
      else cpr (UUID sw))"
proof (induction sws arbitrary: cpr)
  case Nil
  then show ?case by simp
next
  case (Cons a sws)
  show ?case
  proof (cases "sw = a")
    case True
    with Cons.prems have "UUID sw \<notin> UUID ` set sws" by auto
    then have "fst (snd (software_loop sbom sws (fst (snd (software_step sbom a cpr))))) (UUID sw)
        = fst (snd (software_step sbom a cpr)) (UUID sw)"
      by (rule software_loop_table_other)
    with True show ?thesis by (simp add: split_beta software_step_table)
  next
    case False
    with Cons.prems have in_rest: "sw \<in> set sws" and d: "distinct (map UUID sws)"
      and nin: "UUID a \<notin> UUID ` set sws" by auto
    from in_rest have "UUID sw \<in> UUID ` set sws" by (rule imageI)
    with nin have ne: "UUID sw \<noteq> UUID a" by metis
    from ne have step: "fst (snd (software_step sbom a cpr)) (UUID sw) = cpr (UUID sw)"
      by (simp add: software_step_table)
    have loop: "fst (snd (software_loop sbom (a # sws) cpr)) =
        fst (snd (software_loop sbom sws (fst (snd (software_step sbom a cpr)))))"
      by (simp add: split_beta)
    show ?thesis
      unfolding loop
      using Cons.IH [OF d in_rest, of "fst (snd (software_step sbom a cpr))"] step
      by simp
  qed
qed

lemma software_loop_table_dom:
  "fst (snd (software_loop sbom sws cpr)) u = Some q \<Longrightarrow>
   cpr u = Some q \<or> (\<exists>sw\<in>set sws. u = UUID sw \<and> get_children sbom (UUID sw) ''Contains'' = []
        \<and> (\<exists>p\<in>set (multi_part_paths sw). q = hd (PurePath_parts p)))"
proof (induction sws arbitrary: cpr)
  case Nil
  then show ?case by simp
next
  case (Cons a sws)
  from Cons.prems have
    "fst (snd (software_loop sbom sws (fst (snd (software_step sbom a cpr))))) u = Some q"
    by (simp add: split_beta)
  from Cons.IH [OF this] show ?case
  proof
    assume "fst (snd (software_step sbom a cpr)) u = Some q"
    then show ?thesis
      by (auto simp: software_step_table split: if_splits intro: last_in_set)
  next
    assume "\<exists>sw\<in>set sws. u = UUID sw \<and> get_children sbom (UUID sw) ''Contains'' = []
        \<and> (\<exists>p\<in>set (multi_part_paths sw). q = hd (PurePath_parts p))"
    then show ?thesis by auto
  qed
qed

section \<open>Properties of the walk over the edges\<close>

lemma edge_skipped_iff:
  "edge_skipped cpr (p, c, l) \<longleftrightarrow> upper l = ''CONTAINS'' \<and> (\<exists>q. cpr c = Some q \<and> q \<noteq> p)"
  by (auto simp: edge_skipped_def split: option.splits)

lemma edge_step_skipped: "edge_skipped cpr e \<Longrightarrow> edge_step cpr rels e = Inr rels"
  by (cases e) (auto simp: edge_step_def edge_skipped_def dom_def split: option.splits)

lemma edge_step_raises:
  "upper l \<noteq> ''CONTAINS'' \<Longrightarrow> edge_step cpr rels (p, c, l) = Inl AttributeError"
  by (simp add: edge_step_def Let_def add_scope_dependency_def)

lemma edge_step_kept:
  "upper l = ''CONTAINS'' \<Longrightarrow> \<not> edge_skipped cpr (p, c, l) \<Longrightarrow>
   edge_step cpr rels (p, c, l) =
     Inr (AList.update p
            ((case map_of rels p of None \<Rightarrow> \<lparr>ref = p, dependencies = []\<rparr> | Some d \<Rightarrow> d)
             \<lparr>dependencies :=
                dependencies (case map_of rels p of
                                None \<Rightarrow> \<lparr>ref = p, dependencies = []\<rparr> | Some d \<Rightarrow> d) @ [c]\<rparr>)
            rels)"
  by (auto simp: edge_step_def edge_skipped_def Let_def split: option.splits)

lemma edge_step_Inr_label:
  "edge_step cpr rels (p, c, l) = Inr rels' \<Longrightarrow> upper l = ''CONTAINS''"
  by (rule ccontr) (simp add: edge_step_raises)

lemma edge_step_error: "edge_step cpr rels e = Inl err \<Longrightarrow> err = AttributeError"
  by (cases e)
     (auto simp: edge_step_def Let_def add_scope_dependency_def split: if_splits)

lemma structural_children_Cons:
  "structural_children cpr ((p, c, l) # es) k =
     (if p = k \<and> upper l = ''CONTAINS'' \<and> \<not> edge_skipped cpr (p, c, l) then [c] else [])
     @ structural_children cpr es k"
  by (auto simp: structural_children_def)

lemma edge_loop_raises:
  "\<exists>e\<in>set es. upper (snd (snd e)) \<noteq> ''CONTAINS'' \<Longrightarrow>
   edge_loop cpr es rels = Inl AttributeError"
proof (induction es arbitrary: rels)
  case Nil
  then show ?case by simp
next
  case (Cons e es)
  obtain p c l where e: "e = (p, c, l)" by (cases e) auto
  show ?case
  proof (cases "upper l = ''CONTAINS''")
    case False
    then show ?thesis by (simp add: e edge_step_raises)
  next
    case True
    with Cons.prems e have rest: "\<exists>e\<in>set es. upper (snd (snd e)) \<noteq> ''CONTAINS''" by simp
    show ?thesis
    proof (cases "edge_step cpr rels e")
      case (Inl err)
      then show ?thesis using edge_step_error by simp
    next
      case (Inr rels1)
      with Cons.IH [OF rest, of rels1] show ?thesis by simp
    qed
  qed
qed


lemma edge_loop_Inr_labels:
  "edge_loop cpr es rels = Inr rels' \<Longrightarrow> \<forall>e\<in>set es. upper (snd (snd e)) = ''CONTAINS''"
  using edge_loop_raises [of es cpr rels] by auto

lemma map_of_edge_loop:
  "edge_loop cpr es rels = Inr rels' \<Longrightarrow>
   map_of rels' k =
     (case map_of rels k of
        Some d \<Rightarrow> Some (d\<lparr>dependencies := dependencies d @ structural_children cpr es k\<rparr>)
      | None \<Rightarrow>
          if \<exists>e\<in>set es. fst e = k \<and> \<not> edge_skipped cpr e then
            Some \<lparr>ref = k, dependencies = structural_children cpr es k\<rparr>
          else None)"
proof (induction es arbitrary: rels)
  case Nil
  then show ?case
    by (auto simp: structural_children_def split: option.splits)
next
  case (Cons e es)
  obtain p c l where e: "e = (p, c, l)" by (cases e) auto
  from Cons.prems obtain rels1 where step: "edge_step cpr rels (p, c, l) = Inr rels1"
    and rest: "edge_loop cpr es rels1 = Inr rels'"
    by (auto simp: e split: sum.splits)
  from step have lab: "upper l = ''CONTAINS''" by (rule edge_step_Inr_label)
  note IH = Cons.IH [OF rest]
  show ?case
  proof (cases "edge_skipped cpr (p, c, l)")
    case True
    with step have "rels1 = rels" by (simp add: edge_step_skipped)
    with True show ?thesis
      using IH
      by (cases "map_of rels k") (simp_all add: e structural_children_Cons)
  next
    case False
    note ns = this
    from step have r1: "rels1 = AList.update p
            ((case map_of rels p of None \<Rightarrow> \<lparr>ref = p, dependencies = []\<rparr> | Some d \<Rightarrow> d)
             \<lparr>dependencies :=
                dependencies (case map_of rels p of
                                None \<Rightarrow> \<lparr>ref = p, dependencies = []\<rparr> | Some d \<Rightarrow> d) @ [c]\<rparr>)
            rels"
      by (simp add: edge_step_kept [OF lab ns])
    show ?thesis
    proof (cases "p = k")
      case False
      then have "map_of rels1 k = map_of rels k"
        by (simp add: r1 update_conv')
      with False show ?thesis
        using IH
        by (cases "map_of rels k") (simp_all add: e structural_children_Cons)
    next
      case True
      have m: "map_of rels1 k = Some
            ((case map_of rels k of None \<Rightarrow> \<lparr>ref = k, dependencies = []\<rparr> | Some d \<Rightarrow> d)
             \<lparr>dependencies :=
                dependencies (case map_of rels k of
                                None \<Rightarrow> \<lparr>ref = k, dependencies = []\<rparr> | Some d \<Rightarrow> d) @ [c]\<rparr>)"
        unfolding r1 True by (simp add: update_conv')
      show ?thesis
        using IH ns True m lab
        by (cases "map_of rels k") (simp_all add: e structural_children_Cons)
    qed
  qed
qed

lemma set_update_cases:
  "(k', v') \<in> set (AList.update k v al) \<Longrightarrow> (k', v') \<in> set al \<or> (k' = k \<and> v' = v)"
  by (induction al) (auto split: if_splits)

lemma edge_step_ref:
  assumes "\<forall>(k, d)\<in>set rels. ref d = k" and "edge_step cpr rels e = Inr rels1"
  shows "\<forall>(k, d)\<in>set rels1. ref d = k"
proof -
  obtain p c l where e: "e = (p, c, l)" by (cases e) auto
  have pd: "ref (case map_of rels p of None \<Rightarrow> \<lparr>ref = p, dependencies = []\<rparr> | Some d \<Rightarrow> d) = p"
    using assms(1) by (auto split: option.splits dest: map_of_SomeD)
  from assms(2) have lab: "upper l = ''CONTAINS''" unfolding e by (rule edge_step_Inr_label)
  show ?thesis
  proof (cases "edge_skipped cpr e")
    case True
    with assms show ?thesis by (simp add: edge_step_skipped)
  next
    case False
    with assms(2) lab have "rels1 = AList.update p
            ((case map_of rels p of None \<Rightarrow> \<lparr>ref = p, dependencies = []\<rparr> | Some d \<Rightarrow> d)
             \<lparr>dependencies :=
                dependencies (case map_of rels p of
                                None \<Rightarrow> \<lparr>ref = p, dependencies = []\<rparr> | Some d \<Rightarrow> d) @ [c]\<rparr>)
            rels"
      by (simp add: e edge_step_kept)
    with assms(1) pd show ?thesis
      by (auto dest!: set_update_cases)
  qed
qed

lemma edge_step_distinct:
  assumes "distinct (map fst rels)" and "edge_step cpr rels e = Inr rels1"
  shows "distinct (map fst rels1)"
proof -
  obtain p c l where e: "e = (p, c, l)" by (cases e) auto
  from assms(2) have lab: "upper l = ''CONTAINS''" unfolding e by (rule edge_step_Inr_label)
  show ?thesis
  proof (cases "edge_skipped cpr e")
    case True
    with assms show ?thesis by (simp add: edge_step_skipped)
  next
    case False
    with assms lab show ?thesis
      by (auto simp: e edge_step_kept distinct_update)
  qed
qed

lemma edge_loop_ref:
  "\<forall>(k, d)\<in>set rels. ref d = k \<Longrightarrow> edge_loop cpr es rels = Inr rels' \<Longrightarrow>
   \<forall>(k, d)\<in>set rels'. ref d = k"
proof (induction es arbitrary: rels)
  case Nil
  then show ?case by simp
next
  case (Cons e es)
  from Cons.prems(2) obtain rels1 where step: "edge_step cpr rels e = Inr rels1"
    and rest: "edge_loop cpr es rels1 = Inr rels'"
    by (auto split: sum.splits)
  from Cons.prems(1) step have "\<forall>(k, d)\<in>set rels1. ref d = k" by (rule edge_step_ref)
  then show ?case using rest by (rule Cons.IH)
qed

lemma edge_loop_distinct:
  "distinct (map fst rels) \<Longrightarrow> edge_loop cpr es rels = Inr rels' \<Longrightarrow> distinct (map fst rels')"
proof (induction es arbitrary: rels)
  case Nil
  then show ?case by simp
next
  case (Cons e es)
  from Cons.prems(2) obtain rels1 where step: "edge_step cpr rels e = Inr rels1"
    and rest: "edge_loop cpr es rels1 = Inr rels'"
    by (auto split: sum.splits)
  from Cons.prems(1) step have "distinct (map fst rels1)" by (rule edge_step_distinct)
  then show ?case using rest by (rule Cons.IH)
qed

lemma edge_loop_records:
  assumes "edge_loop cpr es [] = Inr rels'"
  shows "d \<in> set (map snd rels') \<longleftrightarrow>
     (\<exists>e\<in>set es. fst e = ref d \<and> \<not> edge_skipped cpr e)
     \<and> dependencies d = structural_children cpr es (ref d)"
proof -
  have refs: "\<forall>(k, d)\<in>set rels'. ref d = k"
    using _ assms by (rule edge_loop_ref) simp
  have dist: "distinct (map fst rels')"
    using _ assms by (rule edge_loop_distinct) simp
  have "d \<in> set (map snd rels') \<longleftrightarrow> (ref d, d) \<in> set rels'"
    using refs by force
  also have "\<dots> \<longleftrightarrow> map_of rels' (ref d) = Some d"
    using dist by simp
  also have "\<dots> \<longleftrightarrow> (\<exists>e\<in>set es. fst e = ref d \<and> \<not> edge_skipped cpr e)
     \<and> dependencies d = structural_children cpr es (ref d)"
    by (cases d) (auto simp: map_of_edge_loop [OF assms])
  finally show ?thesis .
qed


lemma in_structural_children:
  "c \<in> set (structural_children cpr es p) \<longleftrightarrow>
     (\<exists>l. (p, c, l) \<in> set es \<and> upper l = ''CONTAINS'' \<and> \<not> edge_skipped cpr (p, c, l))"
  by (force simp: structural_children_def)

section \<open>Properties of \<open>build_bom\<close> and \<open>write_sbom\<close>\<close>

lemma build_bom_eq:
  "build_bom sbom =
     (case edge_loop (container_path_relationships sbom) (graph sbom) [] of
        Inl err \<Rightarrow> Inl err
      | Inr cdx_rels \<Rightarrow>
          Inr \<lparr>components =
                 map (\<lambda>system. snd (convert_system_to_cyclonedx_component system)) (systems sbom)
                 @ concat (map (\<lambda>sw. fst (software_step sbom sw Map.empty)) (software sbom)),
               bom_dependencies = map snd cdx_rels\<rparr>,
      sbom\<lparr>software :=
        map (\<lambda>sw. snd (snd (software_step sbom sw Map.empty))) (software sbom)\<rparr>)"
  using software_loop_components [of sbom "software sbom" Map.empty]
    software_loop_software [of sbom "software sbom" Map.empty]
  by (cases "edge_loop (container_path_relationships sbom) (graph sbom) []")
     (simp_all add: build_bom_def split_beta container_path_relationships_def)

lemma build_bom_input:
  "snd (build_bom sbom) =
     sbom\<lparr>software := map (\<lambda>sw. snd (snd (software_step sbom sw Map.empty))) (software sbom)\<rparr>"
  by (simp add: build_bom_eq)

lemma write_sbom_input: "snd (write_sbom output_as_string sbom) = snd (build_bom sbom)"
  by (cases "build_bom sbom") (auto simp: write_sbom_def split: sum.splits)


lemma write_sbom_not_written:
  "fst (build_bom sbom) = Inl err \<Longrightarrow> fst (write_sbom output_as_string sbom) = Inl err"
  by (cases "build_bom sbom") (auto simp: write_sbom_def)

lemma build_bom_components:
  "fst (build_bom sbom) = Inr bom \<Longrightarrow>
   components bom =
     map (\<lambda>system. snd (convert_system_to_cyclonedx_component system)) (systems sbom)
     @ concat (map (\<lambda>sw. fst (software_step sbom sw Map.empty)) (software sbom))"
  by (auto simp: build_bom_eq split: sum.splits)

lemma build_bom_dependencies:
  "fst (build_bom sbom) = Inr bom \<Longrightarrow>
   \<exists>cdx_rels. edge_loop (container_path_relationships sbom) (graph sbom) [] = Inr cdx_rels
      \<and> bom_dependencies bom = map snd cdx_rels"
  by (auto simp: build_bom_eq split: sum.splits)

lemma build_bom_raises:
  "\<exists>e\<in>set (graph sbom). upper (snd (snd e)) \<noteq> ''CONTAINS'' \<Longrightarrow>
   fst (build_bom sbom) = Inl AttributeError"
  by (simp add: build_bom_eq edge_loop_raises)


lemma dependency_record:
  assumes "fst (build_bom sbom) = Inr bom"
  shows "d \<in> set (bom_dependencies bom) \<longleftrightarrow>
     (\<exists>e\<in>set (graph sbom). fst e = ref d
          \<and> \<not> edge_skipped (container_path_relationships sbom) e)
     \<and> dependencies d = structural_children (container_path_relationships sbom) (graph sbom) (ref d)"
proof -
  from build_bom_dependencies [OF assms] obtain cdx_rels
    where loop: "edge_loop (container_path_relationships sbom) (graph sbom) [] = Inr cdx_rels"
      and deps: "bom_dependencies bom = map snd cdx_rels" by blast
  show ?thesis unfolding deps by (rule edge_loop_records [OF loop])
qed

lemma dependency_record_exists:
  assumes "fst (build_bom sbom) = Inr bom"
    and "(p, c, l) \<in> set (graph sbom)"
    and "\<not> edge_skipped (container_path_relationships sbom) (p, c, l)"
  shows "\<lparr>ref = p,
          dependencies = structural_children (container_path_relationships sbom) (graph sbom) p\<rparr>
         \<in> set (bom_dependencies bom)"
  unfolding dependency_record [OF assms(1)] using assms(2,3) by force


section \<open>The example, evaluated\<close>

lemma upper_examples:
  "upper ''Contains'' = ''CONTAINS''" "upper ''contains'' = ''CONTAINS''"
  "upper ''CONTAINS'' = ''CONTAINS''" "upper ''Requires'' = ''REQUIRES''"
  "upper ''DependsOn'' = ''DEPENDSON''"
  by (simp_all add: upper_def upper_char_def)

lemma parts_examples:
  "PurePath_parts ''parentA/sub/file.txt'' = [''parentA'', ''sub'', ''file.txt'']"
  "PurePath_parts ''file.txt'' = [''file.txt'']"
  "PurePath_parts ''A/x.txt'' = [''A'', ''x.txt'']"
  "PurePath_parts ''B/y.txt'' = [''B'', ''y.txt'']"
  by (simp_all add: PurePath_parts_def splitroot_def)

lemma example_children:
  "get_children example_sbom ''F1'' ''Contains'' = []"
  "get_children example_sbom ''P1'' ''Contains'' = [''F1'']"
  "get_children example_sbom ''F2'' ''Contains'' = []"
  "get_children example_sbom ''F3'' ''Contains'' = []"
  "get_children example_sbom ''P2'' ''Contains'' = [''F3'']"
  by (simp_all add: get_children_def example_sbom_def upper_examples)

lemma example_steps:
  "software_step example_sbom file_entry cpr =
     ([\<lparr>bom_ref = ''F1'', comp_name = Some ''sub/file.txt'', comp_version = None,
        supplier = None, comp_description = None, hashes = Some [(SHA_256, ''abc123'')],
        copyright = None, comp_type = FILE\<rparr>],
      cpr(''F1'' \<mapsto> ''parentA''),
      file_entry\<lparr>version := None, description := None\<rparr>)"
  "software_step example_sbom container_entry cpr =
     (replicate 3
        \<lparr>bom_ref = ''P1'', comp_name = Some ''pkg'', comp_version = Some [],
         supplier = Some ''Acme'', comp_description = Some [],
         hashes = Some [(SHA_1, ''da39''), (MD5, ''d41d'')],
         copyright = None, comp_type = CONTAINER\<rparr>,
      cpr, container_entry)"
  "software_step example_sbom bare_entry cpr = ([], cpr, bare_entry)"
  "software_step example_sbom two_parent_entry cpr =
     ([\<lparr>bom_ref = ''F3'', comp_name = Some ''x.txt'', comp_version = Some ''1.0'',
        supplier = None, comp_description = None, hashes = None,
        copyright = None, comp_type = FILE\<rparr>,
       \<lparr>bom_ref = ''F3'', comp_name = Some ''y.txt'', comp_version = Some ''1.0'',
        supplier = None, comp_description = None, hashes = None,
        copyright = None, comp_type = FILE\<rparr>],
      cpr(''F3'' \<mapsto> ''B''),
      two_parent_entry)"
  "software_step example_sbom nested_entry cpr =
     ([\<lparr>bom_ref = ''P2'', comp_name = Some ''in.zip'', comp_version = None,
        supplier = None, comp_description = None, hashes = None,
        copyright = None, comp_type = CONTAINER\<rparr>],
      cpr, nested_entry)"
      apply (simp_all add: software_step_eq)
      apply (simp_all add: file_entry_def container_entry_def bare_entry_def two_parent_entry_def nested_entry_def
      example_children multi_part_paths_def parts_examples fst_create normalized_def drop_empty_def
      pick_supplier_def build_hashes_def get_fileinfo_metadata_def
      convert_software_to_cyclonedx_container_components_def numeral_3_eq_3)
  done

lemma example_software:
  "software example_sbom =
     [file_entry, container_entry, bare_entry, two_parent_entry, nested_entry]"
  "graph example_sbom =
     [(''parentA'', ''F1'', ''Contains''), (''P1'', ''F1'', ''contains''),
      (''A'', ''F3'', ''Contains''), (''B'', ''F3'', ''CONTAINS''),
      (''P2'', ''F3'', ''Contains''), (''A'', ''P2'', ''Contains''),
      (''S1'', ''P1'', ''Contains'')]"
  "systems example_sbom =
     [example_system, container_system ''parentA'', container_system ''A'',
      container_system ''B'']"
  by (simp_all add: example_sbom_def)

lemma example_table:
  "container_path_relationships example_sbom = [''F1'' \<mapsto> ''parentA'', ''F3'' \<mapsto> ''B'']"
  by (simp add: container_path_relationships_def example_software example_steps)

lemma example_edge_loop:
  "edge_loop (container_path_relationships example_sbom) (graph example_sbom) [] =
     Inr [(''parentA'', \<lparr>ref = ''parentA'', dependencies = [''F1'']\<rparr>),
          (''B'', \<lparr>ref = ''B'', dependencies = [''F3'']\<rparr>),
          (''A'', \<lparr>ref = ''A'', dependencies = [''P2'']\<rparr>),
          (''S1'', \<lparr>ref = ''S1'', dependencies = [''P1'']\<rparr>)]"
  by (simp add: example_software example_table edge_step_def upper_examples)

lemma example_system_components:
  "map (\<lambda>system. snd (convert_system_to_cyclonedx_component system)) (systems example_sbom) =
     [\<lparr>bom_ref = ''S1'', comp_name = Some ''Widget OS'', comp_version = None,
       supplier = Some ''Acme'', comp_description = None, hashes = None,
       copyright = None, comp_type = CONTAINER\<rparr>,
      \<lparr>bom_ref = ''parentA'', comp_name = Some ''parentA'', comp_version = None,
       supplier = None, comp_description = None, hashes = None,
       copyright = None, comp_type = CONTAINER\<rparr>,
      \<lparr>bom_ref = ''A'', comp_name = Some ''A'', comp_version = None,
       supplier = None, comp_description = None, hashes = None,
       copyright = None, comp_type = CONTAINER\<rparr>,
      \<lparr>bom_ref = ''B'', comp_name = Some ''B'', comp_version = None,
       supplier = None, comp_description = None, hashes = None,
       copyright = None, comp_type = CONTAINER\<rparr>]"
  by (simp add: example_software convert_system_to_cyclonedx_component_def example_system_def
      container_system_def)

lemma example_bom:
  "fst (build_bom example_sbom) =
     Inr \<lparr>components =
           [\<lparr>bom_ref = ''S1'', comp_name = Some ''Widget OS'', comp_version = None,
             supplier = Some ''Acme'', comp_description = None, hashes = None,
             copyright = None, comp_type = CONTAINER\<rparr>,
            \<lparr>bom_ref = ''parentA'', comp_name = Some ''parentA'', comp_version = None,
             supplier = None, comp_description = None, hashes = None,
             copyright = None, comp_type = CONTAINER\<rparr>,
            \<lparr>bom_ref = ''A'', comp_name = Some ''A'', comp_version = None,
             supplier = None, comp_description = None, hashes = None,
             copyright = None, comp_type = CONTAINER\<rparr>,
            \<lparr>bom_ref = ''B'', comp_name = Some ''B'', comp_version = None,
             supplier = None, comp_description = None, hashes = None,
             copyright = None, comp_type = CONTAINER\<rparr>,
            \<lparr>bom_ref = ''F1'', comp_name = Some ''sub/file.txt'', comp_version = None,
             supplier = None, comp_description = None, hashes = Some [(SHA_256, ''abc123'')],
             copyright = None, comp_type = FILE\<rparr>,
            \<lparr>bom_ref = ''P1'', comp_name = Some ''pkg'', comp_version = Some [],
             supplier = Some ''Acme'', comp_description = Some [],
             hashes = Some [(SHA_1, ''da39''), (MD5, ''d41d'')],
             copyright = None, comp_type = CONTAINER\<rparr>,
            \<lparr>bom_ref = ''P1'', comp_name = Some ''pkg'', comp_version = Some [],
             supplier = Some ''Acme'', comp_description = Some [],
             hashes = Some [(SHA_1, ''da39''), (MD5, ''d41d'')],
             copyright = None, comp_type = CONTAINER\<rparr>,
            \<lparr>bom_ref = ''P1'', comp_name = Some ''pkg'', comp_version = Some [],
             supplier = Some ''Acme'', comp_description = Some [],
             hashes = Some [(SHA_1, ''da39''), (MD5, ''d41d'')],
             copyright = None, comp_type = CONTAINER\<rparr>,
            \<lparr>bom_ref = ''F3'', comp_name = Some ''x.txt'', comp_version = Some ''1.0'',
             supplier = None, comp_description = None, hashes = None,
             copyright = None, comp_type = FILE\<rparr>,
            \<lparr>bom_ref = ''F3'', comp_name = Some ''y.txt'', comp_version = Some ''1.0'',
             supplier = None, comp_description = None, hashes = None,
             copyright = None, comp_type = FILE\<rparr>,
            \<lparr>bom_ref = ''P2'', comp_name = Some ''in.zip'', comp_version = None,
             supplier = None, comp_description = None, hashes = None,
             copyright = None, comp_type = CONTAINER\<rparr>],
          bom_dependencies =
           [\<lparr>ref = ''parentA'', dependencies = [''F1'']\<rparr>,
            \<lparr>ref = ''B'', dependencies = [''F3'']\<rparr>,
            \<lparr>ref = ''A'', dependencies = [''P2'']\<rparr>,
            \<lparr>ref = ''S1'', dependencies = [''P1'']\<rparr>]\<rparr>"
  unfolding build_bom_eq example_edge_loop example_system_components
  by (simp add: example_software example_steps numeral_3_eq_3)

lemma example_input_after:
  "snd (build_bom example_sbom) =
     example_sbom\<lparr>software :=
       [file_entry\<lparr>version := None, description := None\<rparr>, container_entry, bare_entry,
        two_parent_entry, nested_entry]\<rparr>"
  by (simp add: build_bom_input example_software example_steps)

lemma example_built: "\<exists>bom. fst (build_bom example_sbom) = Inr bom"
  by (simp add: example_bom)

lemma example_dependencies:
  "fst (build_bom example_sbom) = Inr bom \<Longrightarrow>
   bom_dependencies bom =
     [\<lparr>ref = ''parentA'', dependencies = [''F1'']\<rparr>,
      \<lparr>ref = ''B'', dependencies = [''F3'']\<rparr>,
      \<lparr>ref = ''A'', dependencies = [''P2'']\<rparr>,
      \<lparr>ref = ''S1'', dependencies = [''P1'']\<rparr>]"
  by (auto simp: example_bom)

lemma example_component_fields:
  "fst (build_bom example_sbom) = Inr bom \<Longrightarrow>
   map (\<lambda>c. (bom_ref c, comp_type c, comp_version c, comp_description c)) (components bom) =
      [(''S1'', CONTAINER, None, None),
       (''parentA'', CONTAINER, None, None),
       (''A'', CONTAINER, None, None),
       (''B'', CONTAINER, None, None),
       (''F1'', FILE, None, None),
       (''P1'', CONTAINER, Some [], Some []),
       (''P1'', CONTAINER, Some [], Some []),
       (''P1'', CONTAINER, Some [], Some []),
       (''F3'', FILE, Some ''1.0'', None),
       (''F3'', FILE, Some ''1.0'', None),
       (''P2'', CONTAINER, None, None)]"
  by (auto simp: example_bom)

lemma example_input_after_write:
  "snd (write_sbom output_as_string example_sbom) =
     example_sbom\<lparr>software :=
       [file_entry\<lparr>version := None, description := None\<rparr>, container_entry, bare_entry,
        two_parent_entry, nested_entry]\<rparr>"
  by (simp add: write_sbom_input example_input_after)

section \<open>Further properties of the loops\<close>

lemma software_step_software_eq:
  "snd (snd (software_step sbom sw cpr)) =
     (if get_children sbom (UUID sw) ''Contains'' = []
         \<and> fst (convert_software_to_cyclonedx_file_components sw) \<noteq> []
      then normalized sw else sw)"
  by (simp add: software_step_eq convert_file_components_eq)

lemma normalized_same:
  "version sw \<noteq> Some [] \<Longrightarrow> description sw \<noteq> Some [] \<Longrightarrow> normalized sw = sw"
  by (simp add: normalized_def drop_empty_def)



lemma table_of_software:
  "distinct (map UUID (software sbom)) \<Longrightarrow> sw \<in> set (software sbom) \<Longrightarrow>
   container_path_relationships sbom (UUID sw) =
     (if get_children sbom (UUID sw) ''Contains'' = [] \<and> multi_part_paths sw \<noteq> []
      then Some (hd (PurePath_parts (last (multi_part_paths sw)))) else None)"
  unfolding container_path_relationships_def
  by (simp add: software_loop_table)

lemma edge_step_unchanged_iff:
  "edge_step cpr rels (p, c, l) = Inr rels \<longleftrightarrow> edge_skipped cpr (p, c, l)"
proof
  assume "edge_skipped cpr (p, c, l)"
  then show "edge_step cpr rels (p, c, l) = Inr rels" by (rule edge_step_skipped)
next
  assume same: "edge_step cpr rels (p, c, l) = Inr rels"
  then have lab: "upper l = ''CONTAINS''" by (rule edge_step_Inr_label)
  show "edge_skipped cpr (p, c, l)"
  proof (rule ccontr)
    assume ns: "\<not> edge_skipped cpr (p, c, l)"
    have loop: "edge_loop cpr [(p, c, l)] rels = Inr rels" by (simp add: same)
    have "map_of rels p \<noteq> map_of rels p"
      using map_of_edge_loop [OF loop, of p] ns lab
      by (cases "map_of rels p")
         (auto simp: structural_children_def dest: arg_cong [where f = dependencies])
    then show False by simp
  qed
qed

section \<open>The claims\<close>

subsection \<open>C1: the scope of a dependency\<close>

lemma write_sbom_raises:
  "\<exists>e\<in>set (graph sbom). upper (snd (snd e)) \<noteq> ''CONTAINS'' \<Longrightarrow>
   fst (write_sbom output_as_string sbom) = Inl AttributeError"
  by (simp add: build_bom_raises write_sbom_not_written)

text \<open>
  C1. For an edge whose label is not \<open>Contains\<close> the writer calls
  \<open>add_scope_dependency\<close>, with the scope \<open>runtime\<close> for the labels \<open>Uses\<close>,
  \<open>Depends_On\<close> and \<open>Requires\<close> and with the scope \<open>unknown\<close> for every other
  label, and the call raises \<open>AttributeError\<close>. On \<open>scoped_sbom\<close>, whose only edge is
  labelled \<open>Requires\<close>, the step of the edge walk raises: no \<open>Bom\<close> is handed to the
  serializer and \<open>write_sbom\<close> ends with the exception, whatever the serializer is, so
  that no dependency with the scope \<open>runtime\<close> is written.
\<close>

theorem C1_scoped_dependency_raises:
  "graph scoped_sbom = [(''A'', ''B'', ''Requires'')]
   \<and> upper ''Requires'' = ''REQUIRES''
   \<and> edge_step (container_path_relationships scoped_sbom) [] (''A'', ''B'', ''Requires'')
       = Inl AttributeError
   \<and> fst (build_bom scoped_sbom) = Inl AttributeError
   \<and> fst (write_sbom output_as_string scoped_sbom) = Inl AttributeError"
proof -
  have g: "graph scoped_sbom = [(''A'', ''B'', ''Requires'')]"
    by (simp add: scoped_sbom_def)
  have u: "upper ''Requires'' = ''REQUIRES''" by (simp add: upper_examples)
  then have other: "upper ''Requires'' \<noteq> ''CONTAINS''" by simp
  then have step: "edge_step (container_path_relationships scoped_sbom) []
      (''A'', ''B'', ''Requires'') = Inl AttributeError"
    by (rule edge_step_raises)
  have ex: "\<exists>e\<in>set (graph scoped_sbom). upper (snd (snd e)) \<noteq> ''CONTAINS''"
    using other by (simp add: g)
  from g u step build_bom_raises [OF ex] write_sbom_raises [OF ex]
  show ?thesis by (intro conjI)
qed

subsection \<open>C2: what the writer changes in its input\<close>

text \<open>
  C2 (as amended). \<open>write_sbom\<close> leaves the graph and the systems as they are, and
  every software entry too, but for this: a software entry without children under
  \<open>Contains\<close> for which at least one file component is created has an empty version
  and an empty description replaced by \<open>None\<close>, by the assignments in
  \<open>create_cyclonedx_file\<close>. So an SBOM in which no software entry has an empty version
  or description is left unchanged. This is so whatever the serializer is, and also when
  the call ends with an exception.
\<close>

theorem C2_input_after_write_sbom:
  "snd (write_sbom output_as_string sbom) =
     sbom\<lparr>software :=
       map (\<lambda>sw. if get_children sbom (UUID sw) ''Contains'' = []
                     \<and> fst (convert_software_to_cyclonedx_file_components sw) \<noteq> []
                  then sw\<lparr>version := (if version sw = Some [] then None else version sw),
                          description :=
                            (if description sw = Some [] then None else description sw)\<rparr>
                  else sw)
         (software sbom)\<rparr>
   \<and> systems (snd (write_sbom output_as_string sbom)) = systems sbom
   \<and> graph (snd (write_sbom output_as_string sbom)) = graph sbom
   \<and> ((\<forall>sw\<in>set (software sbom). version sw \<noteq> Some [] \<and> description sw \<noteq> Some []) \<longrightarrow>
        snd (write_sbom output_as_string sbom) = sbom)"
proof (intro conjI impI)
  have step: "\<And>sw. snd (snd (software_step sbom sw Map.empty)) =
      (if get_children sbom (UUID sw) ''Contains'' = []
          \<and> fst (convert_software_to_cyclonedx_file_components sw) \<noteq> []
       then sw\<lparr>version := (if version sw = Some [] then None else version sw),
               description := (if description sw = Some [] then None else description sw)\<rparr>
       else sw)"
    by (simp add: software_step_software_eq normalized_def drop_empty_def)
  show first: "snd (write_sbom output_as_string sbom) =
     sbom\<lparr>software :=
       map (\<lambda>sw. if get_children sbom (UUID sw) ''Contains'' = []
                     \<and> fst (convert_software_to_cyclonedx_file_components sw) \<noteq> []
                  then sw\<lparr>version := (if version sw = Some [] then None else version sw),
                          description :=
                            (if description sw = Some [] then None else description sw)\<rparr>
                  else sw)
         (software sbom)\<rparr>"
    unfolding write_sbom_input build_bom_input step ..
  show "systems (snd (write_sbom output_as_string sbom)) = systems sbom"
    by (simp add: write_sbom_input build_bom_input)
  show "graph (snd (write_sbom output_as_string sbom)) = graph sbom"
    by (simp add: write_sbom_input build_bom_input)
  assume clean: "\<forall>sw\<in>set (software sbom). version sw \<noteq> Some [] \<and> description sw \<noteq> Some []"
  have "map (\<lambda>sw. snd (snd (software_step sbom sw Map.empty))) (software sbom) = software sbom"
  proof (rule map_idI)
    fix sw
    assume "sw \<in> set (software sbom)"
    with clean have "normalized sw = sw" by (simp add: normalized_same)
    then show "snd (snd (software_step sbom sw Map.empty)) = sw"
      by (simp add: software_step_software_eq)
  qed
  then show "snd (write_sbom output_as_string sbom) = sbom"
    by (simp add: write_sbom_input build_bom_input)
qed

text \<open>
  The theorem at an SBOM whose only software entry has the version \<open>1.0\<close> and no
  description: \<open>write_sbom\<close> leaves it unchanged.
\<close>

theorem C2_input_after_write_sbom_witness:
  "snd (write_sbom empty_output
          \<lparr>systems = [example_system], software = [two_parent_entry],
           graph = [(''A'', ''F3'', ''Contains'')]\<rparr>) =
     \<lparr>systems = [example_system], software = [two_parent_entry],
      graph = [(''A'', ''F3'', ''Contains'')]\<rparr>"
proof -
  have clean: "\<forall>sw\<in>set (software \<lparr>systems = [example_system], software = [two_parent_entry],
                    graph = [(''A'', ''F3'', ''Contains'')]\<rparr>).
      version sw \<noteq> Some [] \<and> description sw \<noteq> Some []"
    by (simp add: two_parent_entry_def)
  show ?thesis
    by (rule C2_input_after_write_sbom
        [THEN conjunct2, THEN conjunct2, THEN conjunct2, THEN mp, OF clean])
qed

text \<open>
  The claim as stated fails on the example: \<open>file_entry\<close> has the empty string as its
  version and description before the call, and \<open>None\<close> after it.
\<close>

theorem C2_counterexample:
  "snd (write_sbom empty_output example_sbom) \<noteq> example_sbom
   \<and> version (hd (software example_sbom)) = Some []
   \<and> version (hd (software (snd (write_sbom empty_output example_sbom)))) = None
   \<and> description (hd (software example_sbom)) = Some []
   \<and> description (hd (software (snd (write_sbom empty_output example_sbom)))) = None"
proof -
  have v: "version (hd (software example_sbom)) = Some []"
    and d: "description (hd (software example_sbom)) = Some []"
    by (simp_all add: example_software file_entry_def)
  have v': "version (hd (software (snd (write_sbom empty_output example_sbom)))) = None"
    and d': "description (hd (software (snd (write_sbom empty_output example_sbom)))) = None"
    by (simp_all add: example_input_after_write)
  from v v' have "snd (write_sbom empty_output example_sbom) \<noteq> example_sbom" by auto
  with v d v' d' show ?thesis by simp
qed

subsection \<open>C3: edges labelled \<open>Contains\<close> that are passed over\<close>



subsection \<open>C4: container components and file components\<close>

lemma container_components_eq:
  "snd (convert_software_to_cyclonedx_container_components sw) =
     map (\<lambda>fname.
             \<lparr>bom_ref = UUID sw,
              comp_name = (if \<not> truthy (name sw) then Some fname else name sw),
              comp_version = version sw, supplier = pick_supplier sw,
              comp_description = description sw, hashes = build_hashes sw,
              copyright = None, comp_type = CONTAINER\<rparr>)
       (fileName sw)"
  by (simp add: convert_software_to_cyclonedx_container_components_def)

lemma software_step_container:
  "get_children sbom (UUID sw) ''Contains'' \<noteq> [] \<Longrightarrow>
   fst (software_step sbom sw cpr) =
     snd (convert_software_to_cyclonedx_container_components sw)"
  by (simp add: software_step_def)

lemma software_step_file:
  "get_children sbom (UUID sw) ''Contains'' = [] \<Longrightarrow>
   fst (software_step sbom sw cpr) =
     map (\<lambda>(parent_uuid, u, file). file)
       (fst (convert_software_to_cyclonedx_file_components sw))"
  by (simp add: software_step_def split_beta)

lemma file_components_fields:
  assumes "t \<in> set (fst (convert_software_to_cyclonedx_file_components sw))"
  shows "\<exists>fp. snd (snd t) = fst (create_cyclonedx_file fp sw)"
  using assms by (auto simp: convert_file_components_eq split: if_splits)

lemma step_component_cases:
  assumes "c \<in> set (fst (software_step sbom sw cpr))"
  shows "(get_children sbom (UUID sw) ''Contains'' \<noteq> []
            \<and> c \<in> set (snd (convert_software_to_cyclonedx_container_components sw)))
         \<or> (get_children sbom (UUID sw) ''Contains'' = []
            \<and> (\<exists>fp. c = fst (create_cyclonedx_file fp sw)))"
proof (cases "get_children sbom (UUID sw) ''Contains'' = []")
  case True
  with assms obtain t where "t \<in> set (fst (convert_software_to_cyclonedx_file_components sw))"
    and "c = snd (snd t)"
    by (auto simp: software_step_file)
  with True show ?thesis using file_components_fields by blast
next
  case False
  with assms show ?thesis by (simp add: software_step_container)
qed

lemma step_component_type:
  assumes "c \<in> set (fst (software_step sbom sw cpr))"
  shows "comp_type c =
     (if get_children sbom (UUID sw) ''Contains'' \<noteq> [] then CONTAINER else FILE)"
  using step_component_cases [OF assms]
  by (auto simp: container_components_eq fst_create)

lemma step_component_hashes:
  assumes "c \<in> set (fst (software_step sbom sw cpr))"
  shows "hashes c = build_hashes sw"
  using step_component_cases [OF assms]
  by (auto simp: container_components_eq fst_create)

lemma step_component_bom_ref:
  assumes "c \<in> set (fst (software_step sbom sw cpr))"
  shows "bom_ref c = UUID sw"
  using step_component_cases [OF assms]
  by (auto simp: container_components_eq fst_create)

lemma map_const_replicate:
  "\<forall>x\<in>set xs. f x = k \<Longrightarrow> map f xs = replicate (length xs) k"
  by (induction xs) simp_all

text \<open>
  C4. The components added for a software entry that has a child under \<open>Contains\<close>
  are those of the container converter, all of type \<open>CONTAINER\<close>; the components added
  for an entry without such a child are those of the file converter, all of type
  \<open>FILE\<close>. The components of the \<open>Bom\<close> handed to the serializer are those of the
  systems, followed by those of the software entries in their order.
\<close>

theorem C4_container_file_partition:
  "(get_children sbom (UUID sw) ''Contains'' \<noteq> [] \<longrightarrow>
      fst (software_step sbom sw cpr) =
        snd (convert_software_to_cyclonedx_container_components sw)
      \<and> (\<forall>c\<in>set (fst (software_step sbom sw cpr)). comp_type c = CONTAINER))
   \<and> (get_children sbom (UUID sw) ''Contains'' = [] \<longrightarrow>
      fst (software_step sbom sw cpr) =
        map (\<lambda>(parent_uuid, u, file). file)
          (fst (convert_software_to_cyclonedx_file_components sw))
      \<and> (\<forall>c\<in>set (fst (software_step sbom sw cpr)). comp_type c = FILE))
   \<and> (fst (build_bom sbom) = Inr bom \<longrightarrow>
      components bom =
        map (\<lambda>system. snd (convert_system_to_cyclonedx_component system)) (systems sbom)
        @ concat (map (\<lambda>sw. fst (software_step sbom sw Map.empty)) (software sbom)))"
proof (intro conjI impI ballI)
  assume "fst (build_bom sbom) = Inr bom"
  then show "components bom =
        map (\<lambda>system. snd (convert_system_to_cyclonedx_component system)) (systems sbom)
        @ concat (map (\<lambda>sw. fst (software_step sbom sw Map.empty)) (software sbom))"
    by (rule build_bom_components)
next
  assume "get_children sbom (UUID sw) ''Contains'' \<noteq> []"
  then show "fst (software_step sbom sw cpr) =
        snd (convert_software_to_cyclonedx_container_components sw)"
    by (rule software_step_container)
next
  fix c
  assume "get_children sbom (UUID sw) ''Contains'' \<noteq> []"
    and "c \<in> set (fst (software_step sbom sw cpr))"
  then show "comp_type c = CONTAINER" by (simp add: step_component_type)
next
  assume "get_children sbom (UUID sw) ''Contains'' = []"
  then show "fst (software_step sbom sw cpr) =
        map (\<lambda>(parent_uuid, u, file). file)
          (fst (convert_software_to_cyclonedx_file_components sw))"
    by (rule software_step_file)
next
  fix c
  assume "get_children sbom (UUID sw) ''Contains'' = []"
    and "c \<in> set (fst (software_step sbom sw cpr))"
  then show "comp_type c = FILE" by (simp add: step_component_type)
qed

text \<open>
  The theorem on the example: \<open>container_entry\<close> contains \<open>F1\<close> and gives three
  components of type \<open>CONTAINER\<close>; \<open>file_entry\<close> contains nothing and gives one
  component of type \<open>FILE\<close>; the \<open>Bom\<close> handed to the serializer has the four
  components of the systems, followed by those of the five software entries.
\<close>

theorem C4_container_file_partition_witness:
  "map comp_type (fst (software_step example_sbom container_entry Map.empty)) =
     [CONTAINER, CONTAINER, CONTAINER]
   \<and> map comp_type (fst (software_step example_sbom file_entry Map.empty)) = [FILE]
   \<and> (\<exists>bom. fst (build_bom example_sbom) = Inr bom
         \<and> map comp_type (components bom) =
             [CONTAINER, CONTAINER, CONTAINER, CONTAINER, FILE, CONTAINER, CONTAINER, CONTAINER,
              FILE, FILE, CONTAINER])"
proof -
  have parent: "get_children example_sbom (UUID container_entry) ''Contains'' \<noteq> []"
    by (simp add: container_entry_def example_children)
  have leaf: "get_children example_sbom (UUID file_entry) ''Contains'' = []"
    by (simp add: file_entry_def example_children)
  have n: "length (fst (software_step example_sbom container_entry Map.empty)) = 3"
    "length (fst (software_step example_sbom file_entry Map.empty)) = 1"
    by (simp_all add: example_steps)
  from C4_container_file_partition
         [where sbom = example_sbom and sw = container_entry and cpr = Map.empty,
          THEN conjunct1, THEN mp, OF parent]
       C4_container_file_partition
         [where sbom = example_sbom and sw = file_entry and cpr = Map.empty,
          THEN conjunct2, THEN conjunct1, THEN mp, OF leaf]
  have "\<forall>c\<in>set (fst (software_step example_sbom container_entry Map.empty)).
        comp_type c = CONTAINER"
    and "\<forall>c\<in>set (fst (software_step example_sbom file_entry Map.empty)). comp_type c = FILE"
    by blast+
  then have "map comp_type (fst (software_step example_sbom container_entry Map.empty)) =
      replicate (length (fst (software_step example_sbom container_entry Map.empty))) CONTAINER"
    and "map comp_type (fst (software_step example_sbom file_entry Map.empty)) =
      replicate (length (fst (software_step example_sbom file_entry Map.empty))) FILE"
    by (simp_all add: map_const_replicate)
  with n have steps:
    "map comp_type (fst (software_step example_sbom container_entry Map.empty)) =
       [CONTAINER, CONTAINER, CONTAINER]"
    "map comp_type (fst (software_step example_sbom file_entry Map.empty)) = [FILE]"
    by (simp_all add: numeral_3_eq_3)
  from example_built obtain bom where built: "fst (build_bom example_sbom) = Inr bom" ..
  from C4_container_file_partition
         [where sbom = example_sbom and bom = bom,
          THEN conjunct2, THEN conjunct2, THEN mp, OF built]
  have "map comp_type (components bom) =
      [CONTAINER, CONTAINER, CONTAINER, CONTAINER, FILE, CONTAINER, CONTAINER, CONTAINER,
       FILE, FILE, CONTAINER]"
    by (simp add: example_system_components example_software(1) example_steps numeral_3_eq_3)
  with built have "\<exists>bom. fst (build_bom example_sbom) = Inr bom
         \<and> map comp_type (components bom) =
             [CONTAINER, CONTAINER, CONTAINER, CONTAINER, FILE, CONTAINER, CONTAINER, CONTAINER,
              FILE, FILE, CONTAINER]"
    by (intro exI [of _ bom] conjI)
  with steps show ?thesis by (intro conjI)
qed

subsection \<open>C5: empty versions and descriptions\<close>

text \<open>
  C5. \<open>create_cyclonedx_file\<close> replaces an empty version and description by \<open>None\<close>;
  \<open>convert_software_to_cyclonedx_container_components\<close> passes them on as they are.
  In the \<open>Bom\<close> that is handed to the serializer for the example, the components of
  \<open>container_entry\<close> (reference \<open>P1\<close>) carry the empty string as version and
  description, while the component of \<open>file_entry\<close> (reference \<open>F1\<close>), whose version
  and description are empty as well, carries \<open>None\<close>.
\<close>

theorem C5_container_keeps_empty_strings:
  "version container_entry = Some [] \<and> description container_entry = Some []
   \<and> version file_entry = Some [] \<and> description file_entry = Some []
   \<and> map_sum (\<lambda>err. err)
        (\<lambda>bom. map (\<lambda>c. (bom_ref c, comp_type c, comp_version c, comp_description c))
                 (components bom))
        (fst (build_bom example_sbom)) =
      Inr [(''S1'', CONTAINER, None, None),
           (''parentA'', CONTAINER, None, None),
           (''A'', CONTAINER, None, None),
           (''B'', CONTAINER, None, None),
           (''F1'', FILE, None, None),
           (''P1'', CONTAINER, Some [], Some []),
           (''P1'', CONTAINER, Some [], Some []),
           (''P1'', CONTAINER, Some [], Some []),
           (''F3'', FILE, Some ''1.0'', None),
           (''F3'', FILE, Some ''1.0'', None),
           (''P2'', CONTAINER, None, None)]"
  by (simp add: example_bom container_entry_def file_entry_def)

subsection \<open>C6: the components added for a software entry\<close>









subsection \<open>C7: the hash list\<close>

lemma build_hashes_None:
  "\<not> truthy (sha1 sw) \<Longrightarrow> \<not> truthy (sha256 sw) \<Longrightarrow> \<not> truthy (md5 sw) \<Longrightarrow>
   build_hashes sw = None"
  by (cases "sha1 sw"; cases "sha256 sw"; cases "md5 sw") (simp_all add: build_hashes_def)

lemma build_hashes_Some:
  assumes "truthy (sha1 sw) \<or> truthy (sha256 sw) \<or> truthy (md5 sw)"
  shows "\<exists>hs. build_hashes sw = Some hs \<and> distinct (map fst hs)
      \<and> length hs = (if truthy (sha1 sw) then 1 else 0) + (if truthy (sha256 sw) then 1 else 0)
                     + (if truthy (md5 sw) then 1 else 0)
      \<and> (\<forall>h. (SHA_1, h) \<in> set hs \<longleftrightarrow> truthy (sha1 sw) \<and> sha1 sw = Some h)
      \<and> (\<forall>h. (SHA_256, h) \<in> set hs \<longleftrightarrow> truthy (sha256 sw) \<and> sha256 sw = Some h)
      \<and> (\<forall>h. (MD5, h) \<in> set hs \<longleftrightarrow> truthy (md5 sw) \<and> md5 sw = Some h)"
  using assms
  by (cases "sha1 sw"; cases "sha256 sw"; cases "md5 sw")
     (auto simp: build_hashes_def)

text \<open>
  C7. A hash counts as set when it is neither \<open>None\<close> nor the empty string, as in the
  conditions of the converters. Every component added for a software entry with no hash
  set has \<open>None\<close> as its hash list. When a hash is set, the hash list is a list with
  one entry for each hash that is set and no other entry: its algorithms are distinct,
  its length is the number of hashes set, and an algorithm occurs in it, with the value
  of the software entry, exactly when that hash is set.
\<close>

theorem C7_hash_list:
  assumes "c \<in> set (fst (software_step sbom sw cpr))"
  shows "(\<not> truthy (sha1 sw) \<and> \<not> truthy (sha256 sw) \<and> \<not> truthy (md5 sw) \<longrightarrow> hashes c = None)
     \<and> (truthy (sha1 sw) \<or> truthy (sha256 sw) \<or> truthy (md5 sw) \<longrightarrow>
         (\<exists>hs. hashes c = Some hs \<and> distinct (map fst hs)
            \<and> length hs = (if truthy (sha1 sw) then 1 else 0)
                           + (if truthy (sha256 sw) then 1 else 0)
                           + (if truthy (md5 sw) then 1 else 0)
            \<and> (\<forall>h. (SHA_1, h) \<in> set hs \<longleftrightarrow> truthy (sha1 sw) \<and> sha1 sw = Some h)
            \<and> (\<forall>h. (SHA_256, h) \<in> set hs \<longleftrightarrow> truthy (sha256 sw) \<and> sha256 sw = Some h)
            \<and> (\<forall>h. (MD5, h) \<in> set hs \<longleftrightarrow> truthy (md5 sw) \<and> md5 sw = Some h)))"
  unfolding step_component_hashes [OF assms]
  using build_hashes_None [of sw] build_hashes_Some [of sw] by blast

text \<open>
  The theorem on the example: \<open>container_entry\<close> has SHA-1 and MD5 set and no SHA-256,
  and its first component carries a list of two entries; \<open>two_parent_entry\<close> has no
  hash set, and its first component carries \<open>None\<close>.
\<close>

theorem C7_hash_list_witness:
  "(\<exists>hs. hashes (hd (fst (software_step example_sbom container_entry Map.empty))) = Some hs
       \<and> length hs = 2 \<and> (SHA_1, ''da39'') \<in> set hs \<and> (MD5, ''d41d'') \<in> set hs)
   \<and> hashes (hd (fst (software_step example_sbom two_parent_entry Map.empty))) = None"
proof
  let ?c = "hd (fst (software_step example_sbom container_entry Map.empty))"
  have "fst (software_step example_sbom container_entry Map.empty) \<noteq> []"
    by (simp add: example_steps)
  then have c: "?c \<in> set (fst (software_step example_sbom container_entry Map.empty))"
    by (rule hd_in_set)
  have some: "truthy (sha1 container_entry) \<or> truthy (sha256 container_entry)
      \<or> truthy (md5 container_entry)"
    by (simp add: container_entry_def)
  from C7_hash_list [OF c, THEN conjunct2, THEN mp, OF some]
  obtain hs where h: "hashes ?c = Some hs"
    and len: "length hs = (if truthy (sha1 container_entry) then 1 else 0)
                           + (if truthy (sha256 container_entry) then 1 else 0)
                           + (if truthy (md5 container_entry) then 1 else 0)"
    and s1: "\<forall>h. (SHA_1, h) \<in> set hs \<longleftrightarrow>
               truthy (sha1 container_entry) \<and> sha1 container_entry = Some h"
    and m5: "\<forall>h. (MD5, h) \<in> set hs \<longleftrightarrow>
               truthy (md5 container_entry) \<and> md5 container_entry = Some h"
    by blast
  from len have "length hs = 2" by (simp add: container_entry_def)
  moreover from s1 have "(SHA_1, ''da39'') \<in> set hs" by (simp add: container_entry_def)
  moreover from m5 have "(MD5, ''d41d'') \<in> set hs" by (simp add: container_entry_def)
  ultimately show "\<exists>hs. hashes ?c = Some hs \<and> length hs = 2
         \<and> (SHA_1, ''da39'') \<in> set hs \<and> (MD5, ''d41d'') \<in> set hs"
    using h by blast
next
  let ?c = "hd (fst (software_step example_sbom two_parent_entry Map.empty))"
  have "fst (software_step example_sbom two_parent_entry Map.empty) \<noteq> []"
    by (simp add: example_steps)
  then have c: "?c \<in> set (fst (software_step example_sbom two_parent_entry Map.empty))"
    by (rule hd_in_set)
  have none: "\<not> truthy (sha1 two_parent_entry) \<and> \<not> truthy (sha256 two_parent_entry)
      \<and> \<not> truthy (md5 two_parent_entry)"
    by (simp add: two_parent_entry_def)
  show "hashes ?c = None"
    by (rule C7_hash_list [OF c, THEN conjunct1, THEN mp, OF none])
qed

subsection \<open>C8: references\<close>

lemma system_component_bom_ref:
  "bom_ref (snd (convert_system_to_cyclonedx_component system)) = sys_UUID system"
  by (simp add: convert_system_to_cyclonedx_component_def Let_def)

lemma component_references:
  assumes "fst (build_bom sbom) = Inr bom" and "c \<in> set (components bom)"
  shows "(\<exists>system\<in>set (systems sbom).
            c = snd (convert_system_to_cyclonedx_component system)
            \<and> bom_ref c = sys_UUID system)
       \<or> (\<exists>sw\<in>set (software sbom).
            c \<in> set (fst (software_step sbom sw Map.empty)) \<and> bom_ref c = UUID sw)"
proof -
  from assms(2) consider
    (sys) system where "system \<in> set (systems sbom)"
      "c = snd (convert_system_to_cyclonedx_component system)"
    | (soft) sw where "sw \<in> set (software sbom)"
      "c \<in> set (fst (software_step sbom sw Map.empty))"
    unfolding build_bom_components [OF assms(1)] by auto
  then show ?thesis
  proof cases
    case sys
    then show ?thesis using system_component_bom_ref by blast
  next
    case soft
    then show ?thesis using step_component_bom_ref by blast
  qed
qed

lemma dependency_references:
  assumes "fst (build_bom sbom) = Inr bom" and "d \<in> set (bom_dependencies bom)"
  shows "(\<exists>c l. (ref d, c, l) \<in> set (graph sbom))
       \<and> (\<forall>c\<in>set (dependencies d). \<exists>l. (ref d, c, l) \<in> set (graph sbom))"
proof
  from assms obtain e where e: "e \<in> set (graph sbom)" "fst e = ref d"
    unfolding dependency_record [OF assms(1)] by blast
  obtain p c l where "e = (p, c, l)" by (cases e) auto
  with e have "(ref d, c, l) \<in> set (graph sbom)" by simp
  then show "\<exists>c l. (ref d, c, l) \<in> set (graph sbom)" by blast
next
  from assms have "dependencies d =
      structural_children (container_path_relationships sbom) (graph sbom) (ref d)"
    by (simp add: dependency_record)
  then show "\<forall>c\<in>set (dependencies d). \<exists>l. (ref d, c, l) \<in> set (graph sbom)"
    by (auto simp: in_structural_children)
qed




subsection \<open>C9: container paths with a single part\<close>

text \<open>
  C9. For a software entry without children under \<open>Contains\<close> whose container path
  list is not empty and holds only paths with exactly one part, the loop body adds no
  component, stores nothing in the lookup table and leaves the entry as it is: the file
  converter returns no tuple, since such paths are passed over and the file names are
  used only when there is no container path.
\<close>

theorem C9_single_part_paths:
  assumes "get_children sbom (UUID sw) ''Contains'' = []"
    and "containerPath sw \<noteq> []"
    and "\<forall>p\<in>set (containerPath sw). length (PurePath_parts p) = 1"
  shows "software_step sbom sw cpr = ([], cpr, sw)
     \<and> fst (convert_software_to_cyclonedx_file_components sw) = []"
proof -
  from assms(3) have "multi_part_paths sw = []"
    by (simp add: multi_part_paths_def filter_empty_conv)
  with assms(1,2) show ?thesis
    by (simp add: software_step_eq convert_file_components_eq)
qed

text \<open>
  The theorem at \<open>bare_entry\<close> of the example, whose only container path is
  \<open>file.txt\<close> and whose file name list is not empty.
\<close>

theorem C9_single_part_paths_witness:
  "software_step example_sbom bare_entry Map.empty = ([], Map.empty, bare_entry)
   \<and> fst (convert_software_to_cyclonedx_file_components bare_entry) = []
   \<and> fileName bare_entry = [''file.txt'']"
proof -
  have a: "get_children example_sbom (UUID bare_entry) ''Contains'' = []"
    by (simp add: bare_entry_def example_children)
  have b: "containerPath bare_entry \<noteq> []"
    and c: "\<forall>p\<in>set (containerPath bare_entry). length (PurePath_parts p) = 1"
    and f: "fileName bare_entry = [''file.txt'']"
    by (simp_all add: bare_entry_def parts_examples)
  from C9_single_part_paths [OF a b c, of Map.empty] f show ?thesis by simp
qed

subsection \<open>C10: several container paths\<close>

text \<open>
  C10 (as amended). The lookup table has only identifiers of software entries as keys.
  In an SBOM with distinct software identifiers, take a software entry whose identifier
  is not empty. If it has no children under \<open>Contains\<close> and has container paths with
  more than one part, the table records under its identifier the first part of the last
  such path and nothing else; an edge labelled \<open>Contains\<close> to the entry from any other
  parent is passed over by the edge walk, and in the \<open>Bom\<close> handed to the serializer
  no dependency record with another reference lists the entry as a child. If it has
  children under \<open>Contains\<close>, its components are those of the container converter and
  the table records nothing under its identifier; no edge labelled \<open>Contains\<close> to the
  entry is passed over: the step of the edge walk adds the entry to the record of the
  parent, and in the \<open>Bom\<close> handed to the serializer the record of the parent of every
  such edge of the graph lists the entry.
\<close>

theorem C10_last_parent_recorded:
  assumes "sw \<in> set (software sbom)"
    and "distinct (map UUID (software sbom))"
    and "UUID sw \<noteq> []"
  shows "(get_children sbom (UUID sw) ''Contains'' = [] \<and> multi_part_paths sw \<noteq> [] \<longrightarrow>
           container_path_relationships sbom (UUID sw) =
             Some (hd (PurePath_parts (last (multi_part_paths sw))))
           \<and> (\<forall>p l. p \<noteq> hd (PurePath_parts (last (multi_part_paths sw)))
                     \<and> upper l = ''CONTAINS'' \<longrightarrow>
                 edge_step (container_path_relationships sbom) cdx_rels (p, UUID sw, l)
                   = Inr cdx_rels)
           \<and> (fst (build_bom sbom) = Inr bom \<longrightarrow>
                (\<forall>d\<in>set (bom_dependencies bom).
                   ref d \<noteq> hd (PurePath_parts (last (multi_part_paths sw))) \<longrightarrow>
                   UUID sw \<notin> set (dependencies d))))
     \<and> (get_children sbom (UUID sw) ''Contains'' \<noteq> [] \<longrightarrow>
           fst (software_step sbom sw cpr) =
             snd (convert_software_to_cyclonedx_container_components sw)
           \<and> container_path_relationships sbom (UUID sw) = None
           \<and> (\<forall>p l. upper l = ''CONTAINS'' \<longrightarrow>
                 edge_step (container_path_relationships sbom) cdx_rels (p, UUID sw, l)
                   \<noteq> Inr cdx_rels
                 \<and> (\<exists>d. edge_step (container_path_relationships sbom) cdx_rels (p, UUID sw, l)
                          = Inr (AList.update p d cdx_rels)
                        \<and> ref d = ref (case map_of cdx_rels p of
                                         None \<Rightarrow> \<lparr>ref = p, dependencies = []\<rparr> | Some d0 \<Rightarrow> d0)
                        \<and> UUID sw \<in> set (dependencies d)))
           \<and> (fst (build_bom sbom) = Inr bom \<longrightarrow>
                (\<forall>p l. (p, UUID sw, l) \<in> set (graph sbom) \<and> upper l = ''CONTAINS'' \<longrightarrow>
                   (\<exists>d\<in>set (bom_dependencies bom).
                      ref d = p \<and> UUID sw \<in> set (dependencies d)))))
     \<and> (\<forall>u q. container_path_relationships sbom u = Some q \<longrightarrow>
           (\<exists>s\<in>set (software sbom). u = UUID s))"
proof (intro conjI allI impI ballI)
  let ?cpr = "container_path_relationships sbom"
  let ?q = "hd (PurePath_parts (last (multi_part_paths sw)))"
  {
    assume nochild: "get_children sbom (UUID sw) ''Contains'' = [] \<and> multi_part_paths sw \<noteq> []"
    show tab: "?cpr (UUID sw) = Some ?q"
      using assms(1,2) nochild by (simp add: table_of_software)
    {
      fix p l
      assume "p \<noteq> ?q \<and> upper l = ''CONTAINS''"
      with tab have "edge_skipped ?cpr (p, UUID sw, l)"
        by (auto simp: edge_skipped_iff)
      then show "edge_step ?cpr cdx_rels (p, UUID sw, l) = Inr cdx_rels"
        by (rule edge_step_skipped)
    }
    {
      fix d
      assume built: "fst (build_bom sbom) = Inr bom"
        and d: "d \<in> set (bom_dependencies bom)" and other: "ref d \<noteq> ?q"
      from d have "dependencies d = structural_children ?cpr (graph sbom) (ref d)"
        by (simp add: dependency_record [OF built])
      moreover have "UUID sw \<notin> set (structural_children ?cpr (graph sbom) (ref d))"
        using tab other by (auto simp: in_structural_children edge_skipped_iff)
      ultimately show "UUID sw \<notin> set (dependencies d)" by simp
    }
  }
  {
    assume cont: "get_children sbom (UUID sw) ''Contains'' \<noteq> []"
    then show "fst (software_step sbom sw cpr) =
        snd (convert_software_to_cyclonedx_container_components sw)"
      by (rule software_step_container)
    show none: "?cpr (UUID sw) = None"
      using assms(1,2) cont by (simp add: table_of_software)
    {
      fix p l
      assume lab: "upper l = ''CONTAINS''"
      from none have ns: "\<not> edge_skipped ?cpr (p, UUID sw, l)"
        by (simp add: edge_skipped_iff)
      then show "edge_step ?cpr cdx_rels (p, UUID sw, l) \<noteq> Inr cdx_rels"
        by (simp add: edge_step_unchanged_iff)
      let ?pd = "case map_of cdx_rels p of
                   None \<Rightarrow> \<lparr>ref = p, dependencies = []\<rparr> | Some d0 \<Rightarrow> d0"
      have "edge_step ?cpr cdx_rels (p, UUID sw, l) =
          Inr (AList.update p (?pd\<lparr>dependencies := dependencies ?pd @ [UUID sw]\<rparr>) cdx_rels)"
        using lab ns by (rule edge_step_kept)
      then show "\<exists>d. edge_step ?cpr cdx_rels (p, UUID sw, l) = Inr (AList.update p d cdx_rels)
          \<and> ref d = ref ?pd \<and> UUID sw \<in> set (dependencies d)"
        by (intro exI [of _ "?pd\<lparr>dependencies := dependencies ?pd @ [UUID sw]\<rparr>"]) simp
    }
    {
      fix p l
      assume built: "fst (build_bom sbom) = Inr bom"
        and edge: "(p, UUID sw, l) \<in> set (graph sbom) \<and> upper l = ''CONTAINS''"
      from none have ns: "\<not> edge_skipped ?cpr (p, UUID sw, l)"
        by (simp add: edge_skipped_iff)
      with built edge
      have "\<lparr>ref = p, dependencies = structural_children ?cpr (graph sbom) p\<rparr>
          \<in> set (bom_dependencies bom)"
        by (intro dependency_record_exists) simp_all
      moreover have "UUID sw \<in> set (structural_children ?cpr (graph sbom) p)"
        using edge ns by (auto simp: in_structural_children)
      ultimately show "\<exists>d\<in>set (bom_dependencies bom).
          ref d = p \<and> UUID sw \<in> set (dependencies d)"
        by (intro bexI [of _ "\<lparr>ref = p,
              dependencies = structural_children ?cpr (graph sbom) p\<rparr>"]) simp_all
    }
  }
  {
    fix u q
    assume "?cpr u = Some q"
    then have "fst (snd (software_loop sbom (software sbom) Map.empty)) u = Some q"
      by (simp add: container_path_relationships_def)
    from software_loop_table_dom [OF this]
    show "\<exists>s\<in>set (software sbom). u = UUID s" by auto
  }
qed

text \<open>
  The theorem on the example. \<open>two_parent_entry\<close> has the container paths \<open>A/x.txt\<close>
  and \<open>B/y.txt\<close> and no children: the table records \<open>B\<close>, the edge from \<open>A\<close> is
  passed over, and only the record of \<open>B\<close> lists \<open>F3\<close>. \<open>nested_entry\<close> has the
  container paths \<open>A/in.zip\<close> and \<open>B/in.zip\<close> and contains \<open>F3\<close>: the table records
  nothing for \<open>P2\<close>, the edge from \<open>A\<close> to it is not passed over, and the record of
  \<open>A\<close> lists \<open>P2\<close>.
\<close>

theorem C10_last_parent_recorded_witness:
  "container_path_relationships example_sbom ''F3'' = Some ''B''
   \<and> edge_step (container_path_relationships example_sbom) [] (''A'', ''F3'', ''Contains'')
       = Inr []
   \<and> container_path_relationships example_sbom ''P2'' = None
   \<and> edge_step (container_path_relationships example_sbom) [] (''A'', ''P2'', ''Contains'')
       \<noteq> Inr []
   \<and> (\<exists>bom. fst (build_bom example_sbom) = Inr bom
         \<and> \<not> (\<exists>d\<in>set (bom_dependencies bom). ref d \<noteq> ''B'' \<and> ''F3'' \<in> set (dependencies d))
         \<and> (\<exists>d\<in>set (bom_dependencies bom). ref d = ''A'' \<and> ''P2'' \<in> set (dependencies d)))"
proof -
  have b: "distinct (map UUID (software example_sbom))"
    by (simp add: example_software file_entry_def container_entry_def
        bare_entry_def two_parent_entry_def nested_entry_def)
  have a: "two_parent_entry \<in> set (software example_sbom)"
    and a': "nested_entry \<in> set (software example_sbom)"
    by (simp_all add: example_software)
  have id: "UUID two_parent_entry = ''F3''" and id': "UUID nested_entry = ''P2''"
    by (simp_all add: two_parent_entry_def nested_entry_def)
  have c: "UUID two_parent_entry \<noteq> []" and c': "UUID nested_entry \<noteq> []"
    by (simp_all add: id id')
  have leaf: "get_children example_sbom (UUID two_parent_entry) ''Contains'' = []"
    by (simp add: id example_children)
  have cont: "get_children example_sbom (UUID nested_entry) ''Contains'' \<noteq> []"
    by (simp add: id' example_children)
  have m: "multi_part_paths two_parent_entry = [''A/x.txt'', ''B/y.txt'']"
    by (simp add: multi_part_paths_def two_parent_entry_def parts_examples)
  then have nochild: "get_children example_sbom (UUID two_parent_entry) ''Contains'' = []
      \<and> multi_part_paths two_parent_entry \<noteq> []"
    using leaf by simp
  have q: "hd (PurePath_parts (last (multi_part_paths two_parent_entry))) = ''B''"
    by (simp add: m parts_examples)
  from example_built obtain bom where built: "fst (build_bom example_sbom) = Inr bom" ..
  note f = C10_last_parent_recorded [OF a b c, where cdx_rels = "[]" and bom = bom,
      THEN conjunct1, THEN mp, OF nochild, unfolded q id]
  note n = C10_last_parent_recorded [OF a' b c', where cdx_rels = "[]" and bom = bom,
      THEN conjunct2, THEN conjunct1, THEN mp, OF cont, unfolded id']
  have lab: "''A'' \<noteq> ''B'' \<and> upper ''Contains'' = ''CONTAINS''"
    by (simp add: upper_examples)
  have edge: "(''A'', ''P2'', ''Contains'') \<in> set (graph example_sbom)
      \<and> upper ''Contains'' = ''CONTAINS''"
    by (simp add: example_software upper_examples)
  from f [THEN conjunct2, THEN conjunct2, THEN mp, OF built]
  have one: "\<not> (\<exists>d\<in>set (bom_dependencies bom). ref d \<noteq> ''B'' \<and> ''F3'' \<in> set (dependencies d))"
    by blast
  from n [THEN conjunct2, THEN conjunct2, THEN conjunct2, THEN mp, OF built,
      rule_format, OF edge]
  have two: "\<exists>d\<in>set (bom_dependencies bom). ref d = ''A'' \<and> ''P2'' \<in> set (dependencies d)" .
  from built one two
  have doc: "\<exists>bom. fst (build_bom example_sbom) = Inr bom
         \<and> \<not> (\<exists>d\<in>set (bom_dependencies bom). ref d \<noteq> ''B'' \<and> ''F3'' \<in> set (dependencies d))
         \<and> (\<exists>d\<in>set (bom_dependencies bom). ref d = ''A'' \<and> ''P2'' \<in> set (dependencies d))"
    by (intro exI [of _ bom] conjI)
  from n [THEN conjunct2, THEN conjunct2, THEN conjunct1, rule_format,
      OF lab [THEN conjunct2], THEN conjunct1]
  have kept: "edge_step (container_path_relationships example_sbom) []
      (''A'', ''P2'', ''Contains'') \<noteq> Inr []" .
  from f [THEN conjunct1]
       f [THEN conjunct2, THEN conjunct1, rule_format, OF lab]
       n [THEN conjunct2, THEN conjunct1]
       kept doc
  show ?thesis by (intro conjI)
qed

text \<open>
  The claim as stated, for every software entry, fails for an entry that has a child
  under \<open>Contains\<close>: \<open>nested_entry\<close> of the example has the container paths
  \<open>A/in.zip\<close> and \<open>B/in.zip\<close> and contains \<open>F3\<close>, so it gives container components;
  the table records nothing for it, and the edge from \<open>A\<close> to it is not passed over:
  among the dependency records of the \<open>Bom\<close> handed to the serializer, that of \<open>A\<close>
  lists it.
\<close>

theorem C10_counterexample:
  "multi_part_paths nested_entry = [''A/in.zip'', ''B/in.zip'']
   \<and> get_children example_sbom (UUID nested_entry) ''Contains'' = [''F3'']
   \<and> container_path_relationships example_sbom (UUID nested_entry) = None
   \<and> (''A'', UUID nested_entry, ''Contains'') \<in> set (graph example_sbom)
   \<and> map_sum (\<lambda>err. err) bom_dependencies (fst (build_bom example_sbom)) =
       Inr [\<lparr>ref = ''parentA'', dependencies = [''F1'']\<rparr>,
            \<lparr>ref = ''B'', dependencies = [''F3'']\<rparr>,
            \<lparr>ref = ''A'', dependencies = [UUID nested_entry]\<rparr>,
            \<lparr>ref = ''S1'', dependencies = [''P1'']\<rparr>]"
proof -
  have id: "UUID nested_entry = ''P2''" by (simp add: nested_entry_def)
  have "multi_part_paths nested_entry = [''A/in.zip'', ''B/in.zip'']"
    by (simp add: multi_part_paths_def nested_entry_def PurePath_parts_def splitroot_def)
  moreover have "get_children example_sbom (UUID nested_entry) ''Contains'' = [''F3'']"
    by (simp add: id example_children)
  moreover have "container_path_relationships example_sbom (UUID nested_entry) = None"
    by (simp add: id example_table)
  moreover have "(''A'', UUID nested_entry, ''Contains'') \<in> set (graph example_sbom)"
    by (simp add: id example_software)
  moreover have "map_sum (\<lambda>err. err) bom_dependencies (fst (build_bom example_sbom)) =
       Inr [\<lparr>ref = ''parentA'', dependencies = [''F1'']\<rparr>,
            \<lparr>ref = ''B'', dependencies = [''F3'']\<rparr>,
            \<lparr>ref = ''A'', dependencies = [UUID nested_entry]\<rparr>,
            \<lparr>ref = ''S1'', dependencies = [''P1'']\<rparr>]"
    by (simp add: id example_bom)
  ultimately show ?thesis by (intro conjI)
qed

end
